theory Spec2Isabelle
  imports Main "HOL-Library.Multiset" "HOL-Library.AList"
begin

section \<open>Data model (pkg/apis/stable/v1alpha1 and the Kubernetes types it embeds)\<close>

text \<open>
  Go structs are records, Go strings are \<open>string\<close>, a nil-able pointer or map is an
  \<open>option\<close>. \<open>metav1.Time\<close> is an instant; the model counts it as an integer whose
  value 0 is Go's zero \<open>time.Time\<close>, so that \<open>IsZero\<close> and \<open>After\<close> are comparisons.
  \<open>int32\<close> fields (ports, health settings) are integers of the \<open>int32\<close> range.
  Where two Go structs share a field name the model prefixes the later one.
\<close>

type_synonym Time = int

record TypeMeta =
  Kind :: string
  APIVersion :: string

record OwnerReference =
  RefAPIVersion :: string
  RefKind :: string
  RefName :: string
  RefUID :: string
  RefController :: "bool option"
  RefBlockOwnerDeletion :: "bool option"

record ObjectMeta =
  Name :: string
  GenerateName :: string
  Namespace :: string
  UID :: string
  ResourceVersion :: string
  CreationTimestamp :: Time
  DeletionTimestamp :: "Time option"
  Labels :: "(string \<rightharpoonup> string) option"
  Annotations :: "(string \<rightharpoonup> string) option"
  OwnerReferences :: "OwnerReference list"
  Finalizers :: "string list"

record ContainerPort =
  CpContainerPort :: int
  CpHostPort :: int
  CpProtocol :: string

record Container =
  ContainerName :: string
  Image :: string
  ContainerPorts :: "ContainerPort list"

record WeightedPodAffinityTerm =
  Weight :: int
  TopologyKey :: string
  MatchLabels :: "(string \<times> string) list"

record PodAffinity =
  PreferredDuringSchedulingIgnoredDuringExecution :: "WeightedPodAffinityTerm list"

record Affinity =
  PodAffinityOf :: "PodAffinity option"

record PodSpec =
  Containers :: "Container list"
  ServiceAccountName :: string
  AffinityOf :: "Affinity option"

record PodTemplateSpec =
  TemplateObjectMeta :: ObjectMeta
  TemplateSpec :: PodSpec

record Pod =
  PodObjectMeta :: ObjectMeta
  PodSpecOf :: PodSpec

type_synonym GameServerState = string
type_synonym PortPolicy = string
type_synonym SchedulingStrategy = string

record Health =
  Disabled :: bool
  PeriodSeconds :: int
  FailureThreshold :: int
  InitialDelaySeconds :: int

record GameServerPort =
  PortName :: string
  PortPolicyOf :: PortPolicy
  ContainerPortOf :: int
  HostPort :: int
  Protocol :: string

record GameServerSpec =
  SpecContainer :: string
  Ports :: "GameServerPort list"
  HealthOf :: Health
  Scheduling :: SchedulingStrategy
  Template :: PodTemplateSpec

record GameServerStatusPort =
  StatusPortName :: string
  StatusPort :: int

record GameServerStatus =
  State :: GameServerState
  StatusPorts :: "GameServerStatusPort list"
  Address :: string
  NodeName :: string

record GameServer =
  TypeMetaOf :: TypeMeta
  ObjectMetaOf :: ObjectMeta
  Spec :: GameServerSpec
  Status :: GameServerStatus

definition GameServerStatePortAllocation :: GameServerState where
  "GameServerStatePortAllocation = ''PortAllocation''"

definition GameServerStateCreating :: GameServerState where
  "GameServerStateCreating = ''Creating''"

definition GameServerStateStarting :: GameServerState where
  "GameServerStateStarting = ''Starting''"

definition GameServerStateScheduled :: GameServerState where
  "GameServerStateScheduled = ''Scheduled''"

definition GameServerStateRequestReady :: GameServerState where
  "GameServerStateRequestReady = ''RequestReady''"

definition GameServerStateReady :: GameServerState where
  "GameServerStateReady = ''Ready''"

definition GameServerStateShutdown :: GameServerState where
  "GameServerStateShutdown = ''Shutdown''"

definition GameServerStateError :: GameServerState where
  "GameServerStateError = ''Error''"

definition GameServerStateUnhealthy :: GameServerState where
  "GameServerStateUnhealthy = ''Unhealthy''"

definition GameServerStateAllocated :: GameServerState where
  "GameServerStateAllocated = ''Allocated''"

definition Static :: PortPolicy where
  "Static = ''static''"

definition Dynamic :: PortPolicy where
  "Dynamic = ''dynamic''"

text \<open>\<open>(*metav1.Time).IsZero\<close>: a nil pointer and the zero instant are both zero.\<close>

definition IsZero :: "Time option \<Rightarrow> bool" where
  "IsZero t = (case t of None \<Rightarrow> True | Some v \<Rightarrow> v = 0)"

text \<open>\<open>time.Time.After\<close>.\<close>

definition After :: "Time \<Rightarrow> Time \<Rightarrow> bool" where
  "After t u = (u < t)"

section \<open>GameServerSet reconciliation (pkg/gameserversets/controller.go)\<close>

text \<open>
  Go's \<open>int\<close> is taken at 64 bits. The two counters only ever count elements of the
  list, so they stay far below the bound; the three arithmetic expressions over the
  caller's arguments are wrapped by \<open>wrapInt\<close>.
\<close>

definition wrapInt :: "int \<Rightarrow> int" where
  "wrapInt x = (x + 2 ^ 63) mod 2 ^ 64 - 2 ^ 63"

definition isInt :: "int \<Rightarrow> bool" where
  "isInt x = (- (2 ^ 63) \<le> x \<and> x < 2 ^ 63)"

text \<open>The variables the closures of \<open>computeReconciliationAction\<close> capture.\<close>

record Tally =
  upCount :: int
  podPendingCount :: int
  toDelete :: "GameServer list"

definition scheduleDeletion :: "GameServer \<Rightarrow> Tally \<Rightarrow> Tally" where
  "scheduleDeletion gs s =
     (if IsZero (DeletionTimestamp (ObjectMetaOf gs)) then s\<lparr>toDelete := toDelete s @ [gs]\<rparr> else s)"

definition handleGameServerUp :: "int \<Rightarrow> GameServer \<Rightarrow> Tally \<Rightarrow> Tally" where
  "handleGameServerUp targetReplicaCount gs s =
     (if upCount s \<ge> targetReplicaCount then scheduleDeletion gs s
      else s\<lparr>upCount := upCount s + 1\<rparr>)"

definition isAllocated :: "GameServer \<Rightarrow> bool" where
  "isAllocated gs =
     (DeletionTimestamp (ObjectMetaOf gs) = None \<and> State (Status gs) = GameServerStateAllocated)"

text \<open>Pass 1: count allocated servers only.\<close>

fun pass1 :: "GameServer list \<Rightarrow> Tally \<Rightarrow> Tally" where
  "pass1 [] s = s"
| "pass1 (gs # rest) s =
     pass1 rest (if isAllocated gs then s\<lparr>upCount := upCount s + 1\<rparr> else s)"

definition pendingUp :: "int \<Rightarrow> GameServer \<Rightarrow> Tally \<Rightarrow> Tally" where
  "pendingUp targetReplicaCount gs s =
     handleGameServerUp targetReplicaCount gs (s\<lparr>podPendingCount := podPendingCount s + 1\<rparr>)"

text \<open>The body of the second loop: the two \<open>continue\<close>s, then the switch on the state.\<close>

definition pass2Body :: "int \<Rightarrow> GameServer \<Rightarrow> Tally \<Rightarrow> Tally" where
  "pass2Body targetReplicaCount gs s =
     (if isAllocated gs then s
      else if \<not> IsZero (DeletionTimestamp (ObjectMetaOf gs)) then s
      else if State (Status gs) = GameServerStatePortAllocation then pendingUp targetReplicaCount gs s
      else if State (Status gs) = GameServerStateCreating then pendingUp targetReplicaCount gs s
      else if State (Status gs) = GameServerStateStarting then pendingUp targetReplicaCount gs s
      else if State (Status gs) = GameServerStateScheduled then pendingUp targetReplicaCount gs s
      else if State (Status gs) = GameServerStateRequestReady then handleGameServerUp targetReplicaCount gs s
      else if State (Status gs) = GameServerStateReady then handleGameServerUp targetReplicaCount gs s
      else if State (Status gs) = GameServerStateShutdown then handleGameServerUp targetReplicaCount gs s
      else if State (Status gs) = GameServerStateError then scheduleDeletion gs s
      else if State (Status gs) = GameServerStateUnhealthy then scheduleDeletion gs s
      else handleGameServerUp targetReplicaCount gs s)"

fun pass2 :: "int \<Rightarrow> GameServer list \<Rightarrow> Tally \<Rightarrow> Tally" where
  "pass2 targetReplicaCount [] s = s"
| "pass2 targetReplicaCount (gs # rest) s =
     pass2 targetReplicaCount rest (pass2Body targetReplicaCount gs s)"

text \<open>The state of the captured variables after both passes.\<close>

definition tally :: "GameServer list \<Rightarrow> int \<Rightarrow> Tally" where
  "tally list targetReplicaCount =
     pass2 targetReplicaCount list
       (pass1 list \<lparr>upCount = 0, podPendingCount = 0, toDelete = []\<rparr>)"

text \<open>The creation count and whether a cap changed it (the first \<open>if\<close> after the loops).\<close>

definition capCreations :: "int \<Rightarrow> int \<Rightarrow> int \<Rightarrow> int \<Rightarrow> int \<Rightarrow> int \<times> bool" where
  "capCreations up pending targetReplicaCount maxCreations maxPending =
     (if up < targetReplicaCount then
        (let originalNumServersToAdd = wrapInt (targetReplicaCount - up);
             n1 = (if originalNumServersToAdd > maxCreations then maxCreations
                   else originalNumServersToAdd);
             n2 = (if wrapInt (n1 + pending) > maxPending then
                     (let n = wrapInt (maxPending - pending) in if n < 0 then 0 else n)
                   else n1)
         in (n2, originalNumServersToAdd \<noteq> n2))
      else (0, False))"

datatype panic = SliceBoundsOutOfRange | IndexOutOfRange

text \<open>The less function handed to \<open>sort.Slice\<close>: newer first.\<close>

definition newerFirst :: "GameServer \<Rightarrow> GameServer \<Rightarrow> bool" where
  "newerFirst a b =
     After (CreationTimestamp (ObjectMetaOf a)) (CreationTimestamp (ObjectMetaOf b))"

text \<open>
  \<open>sort.Slice\<close> is the Go library's; it is the parameter \<open>sortSlice\<close>. The slice
  expression \<open>toDelete[0:maxDeletions]\<close> panics on a negative bound.
\<close>

definition computeReconciliationAction ::
  "((GameServer \<Rightarrow> GameServer \<Rightarrow> bool) \<Rightarrow> GameServer list \<Rightarrow> GameServer list) \<Rightarrow>
   GameServer list \<Rightarrow> int \<Rightarrow> int \<Rightarrow> int \<Rightarrow> int \<Rightarrow> panic + (int \<times> GameServer list \<times> bool)" where
  "computeReconciliationAction sortSlice list targetReplicaCount maxCreations maxDeletions maxPending =
     (let s = tally list targetReplicaCount;
          (numServersToAdd, partialReconciliation) =
            capCreations (upCount s) (podPendingCount s) targetReplicaCount maxCreations maxPending
      in if int (length (toDelete s)) > maxDeletions then
           (if maxDeletions < 0 then Inl SliceBoundsOutOfRange
            else Inr (numServersToAdd,
                      take (nat maxDeletions) (sortSlice newerFirst (toDelete s)), True))
         else Inr (numServersToAdd, toDelete s, partialReconciliation))"

text \<open>What \<open>sort.Slice\<close> guarantees for this less function: a permutation in which no
  later element is newer than an earlier one.\<close>

definition sortsNewerFirst ::
  "((GameServer \<Rightarrow> GameServer \<Rightarrow> bool) \<Rightarrow> GameServer list \<Rightarrow> GameServer list) \<Rightarrow> bool" where
  "sortsNewerFirst sortSlice =
     (\<forall>xs. mset (sortSlice newerFirst xs) = mset xs \<and>
           sorted_wrt (\<lambda>a b. \<not> newerFirst b a) (sortSlice newerFirst xs))"

section \<open>GameServer methods (pkg/apis/stable/v1alpha1/gameserver.go)\<close>

text \<open>
  Modelled from the spec: the constants \<open>stable.GroupName\<close>, \<open>stable.VersionAnnotation\<close>,
  \<open>SchemeGroupVersion\<close>, \<open>Packed\<close> and \<open>Distributed\<close> are declared in files of the package
  that are not under src/; their values follow the spec's section 6
  (\<open><group>/sdk-version\<close>, the group \<open>stable.agones.dev\<close>). The build version
  \<open>pkg.Version\<close> is a parameter of the functions that read it.
\<close>

definition GroupName :: string where
  "GroupName = ''stable.agones.dev''"

definition VersionAnnotation :: string where
  "VersionAnnotation = GroupName @ ''/sdk-version''"

definition SchemeGroupVersion :: string where
  "SchemeGroupVersion = GroupName @ ''/v1alpha1''"

definition Packed :: SchedulingStrategy where
  "Packed = ''Packed''"

definition Distributed :: SchedulingStrategy where
  "Distributed = ''Distributed''"

definition RoleLabel :: string where
  "RoleLabel = GroupName @ ''/role''"

definition GameServerLabelRole :: string where
  "GameServerLabelRole = ''gameserver''"

definition GameServerPodLabel :: string where
  "GameServerPodLabel = GroupName @ ''/gameserver''"

definition GameServerContainerAnnotation :: string where
  "GameServerContainerAnnotation = GroupName @ ''/container''"

definition SidecarServiceAccountName :: string where
  "SidecarServiceAccountName = ''agones-sdk''"

text \<open>\<open>HasPortPolicy\<close> and \<open>CountPorts\<close>: the loops over \<open>gs.Spec.Ports\<close>.\<close>

fun hasPolicy :: "GameServerPort list \<Rightarrow> PortPolicy \<Rightarrow> bool" where
  "hasPolicy [] policy = False"
| "hasPolicy (p # ps) policy = (if PortPolicyOf p = policy then True else hasPolicy ps policy)"

definition HasPortPolicy :: "GameServer \<Rightarrow> PortPolicy \<Rightarrow> bool" where
  "HasPortPolicy gs policy = hasPolicy (Ports (Spec gs)) policy"

fun countPolicy :: "GameServerPort list \<Rightarrow> PortPolicy \<Rightarrow> nat \<Rightarrow> nat" where
  "countPolicy [] policy cnt = cnt"
| "countPolicy (p # ps) policy cnt =
     countPolicy ps policy (if PortPolicyOf p = policy then cnt + 1 else cnt)"

definition CountPorts :: "GameServer \<Rightarrow> PortPolicy \<Rightarrow> nat" where
  "CountPorts gs policy = countPolicy (Ports (Spec gs)) policy 0"

definition applyContainerDefaults :: "GameServer \<Rightarrow> GameServer" where
  "applyContainerDefaults gs =
     (case Containers (TemplateSpec (Template (Spec gs))) of
        [c] \<Rightarrow> gs\<lparr>Spec := (Spec gs)\<lparr>SpecContainer := ContainerName c\<rparr>\<rparr>
      | _ \<Rightarrow> gs)"

definition applyHealthDefaults :: "GameServer \<Rightarrow> GameServer" where
  "applyHealthDefaults gs =
     (if \<not> Disabled (HealthOf (Spec gs)) then
        (let h0 = HealthOf (Spec gs);
             h1 = (if PeriodSeconds h0 \<le> 0 then h0\<lparr>PeriodSeconds := 5\<rparr> else h0);
             h2 = (if FailureThreshold h1 \<le> 0 then h1\<lparr>FailureThreshold := 3\<rparr> else h1);
             h3 = (if InitialDelaySeconds h2 \<le> 0 then h2\<lparr>InitialDelaySeconds := 5\<rparr> else h2)
         in gs\<lparr>Spec := (Spec gs)\<lparr>HealthOf := h3\<rparr>\<rparr>)
      else gs)"

definition applyStateDefaults :: "GameServer \<Rightarrow> GameServer" where
  "applyStateDefaults gs =
     (if State (Status gs) = [] then
        gs\<lparr>Status := (Status gs)\<lparr>State :=
          (if HasPortPolicy gs Dynamic then GameServerStatePortAllocation
           else GameServerStateCreating)\<rparr>\<rparr>
      else gs)"

text \<open>The body of the loop of \<open>applyPortDefaults\<close>, for one port.\<close>

definition portDefaults :: "GameServerPort \<Rightarrow> GameServerPort" where
  "portDefaults p =
     (let p1 = (if PortPolicyOf p = [] then p\<lparr>PortPolicyOf := Dynamic\<rparr> else p)
      in if Protocol p = [] then p1\<lparr>Protocol := ''UDP''\<rparr> else p1)"

definition applyPortDefaults :: "GameServer \<Rightarrow> GameServer" where
  "applyPortDefaults gs = gs\<lparr>Spec := (Spec gs)\<lparr>Ports := map portDefaults (Ports (Spec gs))\<rparr>\<rparr>"

definition applySchedulingDefaults :: "GameServer \<Rightarrow> GameServer" where
  "applySchedulingDefaults gs =
     (if Scheduling (Spec gs) = [] then gs\<lparr>Spec := (Spec gs)\<lparr>Scheduling := Packed\<rparr>\<rparr> else gs)"

text \<open>The first statement of \<open>ApplyDefaults\<close>: the append to the finalizers.\<close>

definition addFinalizer :: "GameServer \<Rightarrow> GameServer" where
  "addFinalizer gs =
     gs\<lparr>ObjectMetaOf := (ObjectMetaOf gs)\<lparr>Finalizers :=
       Finalizers (ObjectMetaOf gs) @ [GroupName]\<rparr>\<rparr>"

definition ApplyDefaults :: "GameServer \<Rightarrow> GameServer" where
  "ApplyDefaults gs =
     applySchedulingDefaults (applyHealthDefaults (applyStateDefaults (applyPortDefaults
       (applyContainerDefaults (addFinalizer gs)))))"

text \<open>\<open>metav1.StatusCause\<close> and the cause type \<open>metav1.CauseTypeFieldValueInvalid\<close>.\<close>

record StatusCause =
  CauseType :: string
  Field :: string
  Message :: string

definition CauseTypeFieldValueInvalid :: string where
  "CauseTypeFieldValueInvalid = ''FieldValueInvalid''"

definition emptyContainer :: Container where
  "emptyContainer = \<lparr>ContainerName = [], Image = [], ContainerPorts = []\<rparr>"

text \<open>
  \<open>FindGameServerContainer\<close>: the index, the container and the error of the Go triple;
  \<open>None\<close> is the nil error.
\<close>

fun findContainer :: "int \<Rightarrow> Container list \<Rightarrow> string \<Rightarrow> int \<times> Container \<times> string option" where
  "findContainer i [] name =
     (- 1, emptyContainer, Some (''Could not find a container named '' @ name))"
| "findContainer i (c # cs) name =
     (if ContainerName c = name then (i, c, None) else findContainer (i + 1) cs name)"

definition FindGameServerContainer :: "GameServer \<Rightarrow> int \<times> Container \<times> string option" where
  "FindGameServerContainer gs =
     findContainer 0 (Containers (TemplateSpec (Template (Spec gs)))) (SpecContainer (Spec gs))"

text \<open>The second loop of \<open>Validate\<close>: one cause for each dynamic port with a host port.\<close>

definition hostPortCause :: "GameServerPort \<Rightarrow> StatusCause" where
  "hostPortCause p =
     \<lparr>CauseType = CauseTypeFieldValueInvalid,
      Field = PortName p @ ''.hostPort'',
      Message = ''HostPort cannot be specified with a Dynamic PortPolicy''\<rparr>"

fun portCauses :: "GameServerPort list \<Rightarrow> StatusCause list \<Rightarrow> StatusCause list" where
  "portCauses [] causes = causes"
| "portCauses (p # ps) causes =
     portCauses ps
       (if HostPort p > 0 \<and> PortPolicyOf p = Dynamic then causes @ [hostPortCause p]
        else causes)"

definition Validate :: "GameServer \<Rightarrow> bool \<times> StatusCause list" where
  "Validate gs =
     (let causes1 =
            (if length (SpecContainer (Spec gs)) = 0 \<and>
                length (Containers (TemplateSpec (Template (Spec gs)))) > 1
             then [\<lparr>CauseType = CauseTypeFieldValueInvalid, Field = ''container'',
                     Message = ''Container is required when using multiple containers in the pod template''\<rparr>]
             else []);
          causes2 = portCauses (Ports (Spec gs)) causes1;
          causes3 =
            (case FindGameServerContainer gs of
               (_, _, Some err) \<Rightarrow>
                 causes2 @ [\<lparr>CauseType = CauseTypeFieldValueInvalid, Field = ''container'',
                              Message = err\<rparr>]
             | (_, _, None) \<Rightarrow> causes2)
      in (length causes3 = 0, causes3))"

text \<open>\<open>metav1.NewControllerRef(gs, SchemeGroupVersion.WithKind("GameServer"))\<close>.\<close>

definition NewControllerRef :: "GameServer \<Rightarrow> OwnerReference" where
  "NewControllerRef gs =
     \<lparr>RefAPIVersion = SchemeGroupVersion, RefKind = ''GameServer'',
      RefName = Name (ObjectMetaOf gs), RefUID = UID (ObjectMetaOf gs),
      RefController = Some True, RefBlockOwnerDeletion = Some True\<rparr>"

text \<open>Writing \<open>m[k] = v\<close> into a map that the code has made non-nil first.\<close>

definition mapSet :: "(string \<rightharpoonup> string) option \<Rightarrow> string \<Rightarrow> string \<Rightarrow> (string \<rightharpoonup> string) option" where
  "mapSet m k v = Some ((case m of None \<Rightarrow> Map.empty | Some f \<Rightarrow> f)(k \<mapsto> v))"

text \<open>
  \<open>podObjectMeta\<close> writes the pod's metadata and, at its end, the version annotation of
  the GameServer itself: it returns both.
\<close>

definition podObjectMeta :: "string \<Rightarrow> GameServer \<Rightarrow> Pod \<Rightarrow> GameServer \<times> Pod" where
  "podObjectMeta version gs pod =
     (let m0 = PodObjectMeta pod;
          m1 = m0\<lparr>GenerateName := [], Name := Name (ObjectMetaOf gs),
                  Namespace := Namespace (ObjectMetaOf gs), ResourceVersion := [], UID := []\<rparr>;
          m2 = m1\<lparr>Labels := mapSet (Labels m1) RoleLabel GameServerLabelRole\<rparr>;
          m3 = m2\<lparr>Labels := mapSet (Labels m2) GameServerPodLabel (Name (ObjectMetaOf gs))\<rparr>;
          m4 = m3\<lparr>Annotations :=
                  mapSet (Annotations m3) GameServerContainerAnnotation (SpecContainer (Spec gs))\<rparr>;
          m5 = m4\<lparr>OwnerReferences := OwnerReferences m4 @ [NewControllerRef gs]\<rparr>;
          m6 = (if Scheduling (Spec gs) = Packed then
                  m5\<lparr>Annotations :=
                    mapSet (Annotations m5) ''cluster-autoscaler.kubernetes.io/safe-to-evict'' ''false''\<rparr>
                else m5);
          m7 = m6\<lparr>Annotations := mapSet (Annotations m6) VersionAnnotation version\<rparr>;
          gs' = gs\<lparr>ObjectMetaOf := (ObjectMetaOf gs)\<lparr>Annotations :=
                  mapSet (Annotations (ObjectMetaOf gs)) VersionAnnotation version\<rparr>\<rparr>
      in (gs', pod\<lparr>PodObjectMeta := m7\<rparr>))"

definition podScheduling :: "GameServer \<Rightarrow> Pod \<Rightarrow> Pod" where
  "podScheduling gs pod =
     (if Scheduling (Spec gs) = Packed then
        (let a = (case AffinityOf (PodSpecOf pod) of None \<Rightarrow> \<lparr>PodAffinityOf = None\<rparr> | Some x \<Rightarrow> x);
             pa = (case PodAffinityOf a of
                     None \<Rightarrow> \<lparr>PreferredDuringSchedulingIgnoredDuringExecution = []\<rparr>
                   | Some x \<Rightarrow> x);
             wpat = \<lparr>Weight = 100, TopologyKey = ''kubernetes.io/hostname'',
                     MatchLabels = [(RoleLabel, GameServerLabelRole)]\<rparr>;
             pa' = pa\<lparr>PreferredDuringSchedulingIgnoredDuringExecution :=
                       PreferredDuringSchedulingIgnoredDuringExecution pa @ [wpat]\<rparr>
         in pod\<lparr>PodSpecOf := (PodSpecOf pod)\<lparr>AffinityOf := Some (a\<lparr>PodAffinityOf := Some pa'\<rparr>)\<rparr>\<rparr>)
      else pod)"

text \<open>The loop of \<open>Pod\<close> that appends one container port for each port of the GameServer.\<close>

fun appendPorts :: "GameServerPort list \<Rightarrow> Container \<Rightarrow> Container" where
  "appendPorts [] gsContainer = gsContainer"
| "appendPorts (p # ps) gsContainer =
     appendPorts ps
       (gsContainer\<lparr>ContainerPorts := ContainerPorts gsContainer @
          [\<lparr>CpContainerPort = ContainerPortOf p, CpHostPort = HostPort p, CpProtocol = Protocol p\<rparr>]\<rparr>)"

text \<open>
  \<open>Pod\<close> returns the pod and the error, and the receiver as the call leaves it. The
  index that \<open>FindGameServerContainer\<close> returns with a nil error is within the template's
  containers, which the pod's containers copy, so the indexed write is a list update.
\<close>

definition Pod :: "string \<Rightarrow> GameServer \<Rightarrow> Container list \<Rightarrow> GameServer \<times> Pod \<times> string option" where
  "Pod version gs sidecars =
     (let pod0 = \<lparr>PodObjectMeta = TemplateObjectMeta (Template (Spec gs)),
                  PodSpecOf = TemplateSpec (Template (Spec gs))\<rparr>;
          (gs1, pod1) = podObjectMeta version gs pod0;
          pod2 = (if ServiceAccountName (PodSpecOf pod1) = [] then
                    pod1\<lparr>PodSpecOf := (PodSpecOf pod1)\<lparr>ServiceAccountName := SidecarServiceAccountName\<rparr>\<rparr>
                  else pod1)
      in case FindGameServerContainer gs1 of
           (i, gsContainer, Some err) \<Rightarrow> (gs1, pod2, Some err)
         | (i, gsContainer, None) \<Rightarrow>
             (let gsContainer' = appendPorts (Ports (Spec gs1)) gsContainer;
                  pod3 = pod2\<lparr>PodSpecOf := (PodSpecOf pod2)\<lparr>Containers :=
                           (Containers (PodSpecOf pod2))[nat i := gsContainer']\<rparr>\<rparr>;
                  pod4 = pod3\<lparr>PodSpecOf := (PodSpecOf pod3)\<lparr>Containers :=
                           Containers (PodSpecOf pod3) @ sidecars\<rparr>\<rparr>
              in (gs1, podScheduling gs1 pod4, None)))"

section \<open>Dynamic port allocator (pkg/gameservers/portallocator.go)\<close>

text \<open>
  A \<open>portAllocation\<close> is the Go map \<open>map[int32]bool\<close> of one node, kept as an association
  list with distinct keys: \<open>np[port]\<close> reads \<open>false\<close> for a missing key, \<open>np[port] = v\<close> is
  \<open>AList.update\<close>. Go leaves the order in which \<open>range\<close> visits a map open and
  chooses it anew at every \<open>range\<close> statement. The order is a parameter:
  \<open>rangeOrder i\<close> permutes the entries of the \<open>i\<close>-th node map in one run of
  \<open>findOpenPorts\<close>, which ranges over each node map once, and \<open>rangeOrders k\<close> is the
  choice for the \<open>k\<close>-th run of \<open>findOpenPorts\<close> within one call of \<open>Allocate\<close>;
  so every \<open>range\<close> statement that runs has an order of its own. The fields of
  \<open>PortAllocator\<close> for the logger, the mutex, the listers and the informers carry no
  state of the allocation and are left out; the calls are modelled one at a time, as the
  mutex serialises them.
\<close>

type_synonym portAllocation = "(int \<times> bool) list"

record PortAllocator =
  portAllocations :: "portAllocation list"
  gameServerRegistry :: "string \<rightharpoonup> bool"
  minPort :: int
  maxPort :: int

definition NewPortAllocator :: "int \<Rightarrow> int \<Rightarrow> PortAllocator" where
  "NewPortAllocator minP maxP =
     \<lparr>portAllocations = [], gameServerRegistry = Map.empty, minPort = minP, maxPort = maxP\<rparr>"

definition portTaken :: "portAllocation \<Rightarrow> int \<Rightarrow> bool" where
  "portTaken np port = (case map_of np port of None \<Rightarrow> False | Some taken \<Rightarrow> taken)"

text \<open>The increment \<open>i++\<close> of an \<open>int32\<close>.\<close>

definition wrapInt32 :: "int \<Rightarrow> int" where
  "wrapInt32 x = (x + 2 ^ 31) mod 2 ^ 32 - 2 ^ 31"

text \<open>
  The loop of \<open>newPortAllocation\<close>, \<open>for i := pa.minPort; i <= pa.maxPort; i++\<close>. With
  \<open>maxPort\<close> the greatest \<open>int32\<close> the condition never fails, so the loop is a partial
  function: \<open>None\<close> is the call that does not return.
\<close>

partial_function (option) fillPorts :: "int \<Rightarrow> int \<Rightarrow> portAllocation \<Rightarrow> portAllocation option" where
  "fillPorts i maxP p =
     (if i \<le> maxP then fillPorts (wrapInt32 (i + 1)) maxP (AList.update i False p)
      else Some p)"

definition newPortAllocation :: "PortAllocator \<Rightarrow> portAllocation option" where
  "newPortAllocation pa = fillPorts (minPort pa) (maxPort pa) []"

text \<open>
  \<open>findOpenPorts\<close>. A found port \<open>pn\<close> is the node's map, here its index in
  \<open>portAllocations\<close>, and the port. \<open>scanNode\<close> is the inner loop over one map; its
  second result says that the \<open>return\<close> inside the loop was taken.
\<close>

type_synonym pn = "nat \<times> int"

fun scanNode :: "nat \<Rightarrow> nat \<Rightarrow> portAllocation \<Rightarrow> pn list \<Rightarrow> pn list \<times> bool" where
  "scanNode amount i [] ports = (ports, False)"
| "scanNode amount i ((p, taken) # entries) ports =
     (if \<not> taken then
        (if length (ports @ [(i, p)]) = amount then (ports @ [(i, p)], True)
         else scanNode amount i entries (ports @ [(i, p)]))
      else scanNode amount i entries ports)"

fun scanNodes ::
  "(nat \<Rightarrow> portAllocation \<Rightarrow> portAllocation) \<Rightarrow> nat \<Rightarrow> nat \<Rightarrow> portAllocation list \<Rightarrow>
   pn list \<Rightarrow> pn list" where
  "scanNodes rangeOrder amount i [] ports = ports"
| "scanNodes rangeOrder amount i (n # ns) ports =
     (case scanNode amount i (rangeOrder i n) ports of
        (ports', True) \<Rightarrow> ports'
      | (ports', False) \<Rightarrow> scanNodes rangeOrder amount (i + 1) ns ports')"

definition findOpenPorts ::
  "(nat \<Rightarrow> portAllocation \<Rightarrow> portAllocation) \<Rightarrow> PortAllocator \<Rightarrow> nat \<Rightarrow> pn list" where
  "findOpenPorts rangeOrder pa amount = scanNodes rangeOrder amount 0 (portAllocations pa) []"

text \<open>\<open>a.pa[a.port] = true\<close>: the write goes to the map of the node, which the slice shares.\<close>

definition takePort :: "pn \<Rightarrow> portAllocation list \<Rightarrow> portAllocation list" where
  "takePort a nodes = nodes[fst a := AList.update (snd a) True (nodes ! fst a)]"

text \<open>
  The loop over \<open>gs.Spec.Ports\<close> in \<open>allocate\<close>: each dynamic port pops the first
  allocation (an index panic on an empty slice), marks it taken and takes its port.
\<close>

fun assignPorts ::
  "GameServerPort list \<Rightarrow> pn list \<Rightarrow> portAllocation list \<Rightarrow>
   panic + (GameServerPort list \<times> portAllocation list)" where
  "assignPorts [] allocations nodes = Inr ([], nodes)"
| "assignPorts (p # ps) allocations nodes =
     (if PortPolicyOf p = Dynamic then
        (case allocations of
           [] \<Rightarrow> Inl IndexOutOfRange
         | a # rest \<Rightarrow>
             (case assignPorts ps rest (takePort a nodes) of
                Inl e \<Rightarrow> Inl e
              | Inr (ps', nodes') \<Rightarrow> Inr (p\<lparr>HostPort := snd a\<rparr> # ps', nodes')))
      else
        (case assignPorts ps allocations nodes of
           Inl e \<Rightarrow> Inl e
         | Inr (ps', nodes') \<Rightarrow> Inr (p # ps', nodes')))"

text \<open>The branch of \<open>allocate\<close> that registers the GameServer and returns.\<close>

definition assignAllocations ::
  "PortAllocator \<Rightarrow> GameServer \<Rightarrow> pn list \<Rightarrow> panic + (PortAllocator \<times> GameServer)" where
  "assignAllocations pa gs allocations =
     (case assignPorts (Ports (Spec gs)) allocations (portAllocations pa) of
        Inl e \<Rightarrow> Inl e
      | Inr (ps', nodes') \<Rightarrow>
          Inr (pa\<lparr>portAllocations := nodes',
                  gameServerRegistry := (gameServerRegistry pa)(UID (ObjectMetaOf gs) \<mapsto> True)\<rparr>,
               gs\<lparr>Spec := (Spec gs)\<lparr>Ports := ps'\<rparr>\<rparr>))"

text \<open>
  The recursive closure \<open>allocate\<close>: when the open ports found are not exactly as many as
  asked for, it appends a new node map and tries again. This run of \<open>findOpenPorts\<close>
  ranges in the orders \<open>rangeOrders 0\<close>, the next try in the orders \<open>rangeOrders 1\<close>,
  and so on. \<open>None\<close> is the call that does not return.
\<close>

partial_function (option) allocate ::
  "(nat \<Rightarrow> nat \<Rightarrow> portAllocation \<Rightarrow> portAllocation) \<Rightarrow> PortAllocator \<Rightarrow> GameServer \<Rightarrow>
   (panic + (PortAllocator \<times> GameServer)) option" where
  "allocate rangeOrders pa gs =
     (if length (findOpenPorts (rangeOrders 0) pa (CountPorts gs Dynamic)) = CountPorts gs Dynamic then
        Some (assignAllocations pa gs (findOpenPorts (rangeOrders 0) pa (CountPorts gs Dynamic)))
      else
        (case newPortAllocation pa of
           None \<Rightarrow> None
         | Some n \<Rightarrow>
             allocate (\<lambda>k. rangeOrders (Suc k))
               (pa\<lparr>portAllocations := portAllocations pa @ [n]\<rparr>) gs))"

definition Allocate ::
  "(nat \<Rightarrow> nat \<Rightarrow> portAllocation \<Rightarrow> portAllocation) \<Rightarrow> PortAllocator \<Rightarrow> GameServer \<Rightarrow>
   (panic + (PortAllocator \<times> GameServer)) option" where
  "Allocate rangeOrders pa gs = allocate rangeOrders pa gs"

text \<open>The two partial functions compute by their recursion equations.\<close>

declare fillPorts.simps [code]

declare allocate.simps [code]

text \<open>\<open>setPortAllocation\<close>: the first map whose entry for the port differs is written.\<close>

fun setPortAllocation :: "int \<Rightarrow> portAllocation list \<Rightarrow> bool \<Rightarrow> portAllocation list" where
  "setPortAllocation port [] taken = []"
| "setPortAllocation port (np # rest) taken =
     (if portTaken np port \<noteq> taken then AList.update port taken np # rest
      else np # setPortAllocation port rest taken)"

text \<open>The loop of \<open>DeAllocate\<close> over the ports of the GameServer.\<close>

fun releasePorts :: "GameServerPort list \<Rightarrow> int \<Rightarrow> int \<Rightarrow> portAllocation list \<Rightarrow> portAllocation list" where
  "releasePorts [] minP maxP nodes = nodes"
| "releasePorts (p # ps) minP maxP nodes =
     releasePorts ps minP maxP
       (if HostPort p < minP \<or> HostPort p > maxP then nodes
        else setPortAllocation (HostPort p) nodes False)"

definition DeAllocate :: "PortAllocator \<Rightarrow> GameServer \<Rightarrow> PortAllocator" where
  "DeAllocate pa gs =
     (if gameServerRegistry pa (UID (ObjectMetaOf gs)) = None then pa
      else pa\<lparr>portAllocations :=
                releasePorts (Ports (Spec gs)) (minPort pa) (maxPort pa) (portAllocations pa),
              gameServerRegistry := (gameServerRegistry pa)(UID (ObjectMetaOf gs) := None)\<rparr>)"

text \<open>
  What \<open>range\<close> over a map guarantees: every entry once, whichever the map and whichever
  the \<open>range\<close> statement.
\<close>

definition rangesOverMap :: "(nat \<Rightarrow> portAllocation \<Rightarrow> portAllocation) \<Rightarrow> bool" where
  "rangesOverMap rangeOrder = (\<forall>i np. mset (rangeOrder i np) = mset np)"

definition rangesEachTime :: "(nat \<Rightarrow> nat \<Rightarrow> portAllocation \<Rightarrow> portAllocation) \<Rightarrow> bool" where
  "rangesEachTime rangeOrders = (\<forall>k. rangesOverMap (rangeOrders k))"

text \<open>
  The two counts of the uniqueness property: the node maps in which a port is marked
  taken, and the dynamic ports of a list of GameServers whose host port it is.
\<close>

definition takenCount :: "portAllocation list \<Rightarrow> int \<Rightarrow> nat" where
  "takenCount nodes port = length (filter (\<lambda>np. portTaken np port) nodes)"

definition heldBy :: "GameServer \<Rightarrow> int \<Rightarrow> nat" where
  "heldBy gs port =
     length (filter (\<lambda>p. PortPolicyOf p = Dynamic \<and> HostPort p = port) (Ports (Spec gs)))"

definition heldCount :: "GameServer list \<Rightarrow> int \<Rightarrow> nat" where
  "heldCount live port = sum_list (map (\<lambda>gs. heldBy gs port) live)"

definition holders :: "GameServer list \<Rightarrow> int \<Rightarrow> nat" where
  "holders live port = length (filter (\<lambda>gs. 0 < heldBy gs port) live)"

text \<open>
  Notions for stating and proving the allocator's properties. \<open>freeOf\<close> and
  \<open>allFree\<close> list the open ports in the order in which \<open>findOpenPorts\<close> meets them.
\<close>

definition freeOf :: "nat \<Rightarrow> portAllocation \<Rightarrow> pn list" where
  "freeOf i np = map (\<lambda>e. (i, fst e)) (filter (\<lambda>e. \<not> snd e) np)"

fun allFree ::
  "(nat \<Rightarrow> portAllocation \<Rightarrow> portAllocation) \<Rightarrow> nat \<Rightarrow> portAllocation list \<Rightarrow> pn list" where
  "allFree rangeOrder i [] = []"
| "allFree rangeOrder i (n # ns) = freeOf i (rangeOrder i n) @ allFree rangeOrder (i + 1) ns"

text \<open>The number of open ports of the node maps, whatever the order.\<close>

definition freeTotal :: "portAllocation list \<Rightarrow> nat" where
  "freeTotal nodes = sum_list (map (\<lambda>np. length (filter (\<lambda>e. \<not> snd e) np)) nodes)"

text \<open>A Go map has each key once: the association lists have distinct keys.\<close>

definition distinctKeys :: "portAllocation \<Rightarrow> bool" where
  "distinctKeys np = distinct (map fst np)"

definition wfNodes :: "portAllocation list \<Rightarrow> bool" where
  "wfNodes nodes = list_all distinctKeys nodes"

definition allFreeIn :: "portAllocation \<Rightarrow> bool" where
  "allFreeIn np = list_all (\<lambda>e. \<not> snd e) np"

definition freeAt :: "portAllocation list \<Rightarrow> pn \<Rightarrow> bool" where
  "freeAt nodes a = (fst a < length nodes \<and> map_of (nodes ! fst a) (snd a) = Some False)"

text \<open>Every port that a node map has open lies in the window of the allocator.\<close>

definition freeKeysInWindow :: "PortAllocator \<Rightarrow> bool" where
  "freeKeysInWindow pa =
     list_all (list_all (\<lambda>e. snd e \<or> (minPort pa \<le> fst e \<and> fst e \<le> maxPort pa)))
       (portAllocations pa)"

definition dynHeld :: "GameServerPort list \<Rightarrow> int \<Rightarrow> nat" where
  "dynHeld ps q = length (filter (\<lambda>p. PortPolicyOf p = Dynamic \<and> HostPort p = q) ps)"

text \<open>No port of the GameServer other than its dynamic ones has a host port in the window.\<close>

definition staticOutside :: "int \<Rightarrow> int \<Rightarrow> GameServer \<Rightarrow> bool" where
  "staticOutside minP maxP gs =
     list_all (\<lambda>p. PortPolicyOf p = Dynamic \<or> HostPort p < minP \<or> maxP < HostPort p)
       (Ports (Spec gs))"

text \<open>
  The host ports of a GameServer that lie in the window, and those of its dynamic ports.
  \<open>DeAllocate\<close> reads the UID and the host ports of its argument and nothing else: the
  argument releases the ports of a live GameServer when it has the UID of that GameServer
  and, inside the window, the host ports of its dynamic ports, each as many times. A copy
  of the GameServer that \<open>Allocate\<close> returned does, whatever its other fields, when
  none of its static ports lies in the window.
\<close>

definition windowHostPorts :: "int \<Rightarrow> int \<Rightarrow> GameServerPort list \<Rightarrow> int list" where
  "windowHostPorts minP maxP ps = filter (\<lambda>h. minP \<le> h \<and> h \<le> maxP) (map HostPort ps)"

definition releasesPortsOf :: "int \<Rightarrow> int \<Rightarrow> GameServer \<Rightarrow> GameServer \<Rightarrow> bool" where
  "releasesPortsOf minP maxP gs g =
     (UID (ObjectMetaOf gs) = UID (ObjectMetaOf g) \<and>
      mset (windowHostPorts minP maxP (Ports (Spec gs))) =
      mset (windowHostPorts minP maxP
              (filter (\<lambda>p. PortPolicyOf p = Dynamic) (Ports (Spec g)))))"

text \<open>
  The states that sequences of calls reach from a new allocator, with the GameServers that
  are live (allocated and not yet de-allocated), when the callers keep to this:
  \<open>Allocate\<close> is called for a GameServer that is not in the registry, and \<open>DeAllocate\<close>
  is called either for a GameServer that is not in the registry (the call is ignored) or
  for one that releases the ports of a live GameServer. Every call of \<open>Allocate\<close> ranges
  over the node maps in orders of its own.
\<close>

inductive reached :: "int \<Rightarrow> int \<Rightarrow> PortAllocator \<Rightarrow> GameServer list \<Rightarrow> bool"
  for minP maxP where
  fresh: "reached minP maxP (NewPortAllocator minP maxP) []"
| allocated:
    "\<lbrakk>reached minP maxP pa live;
      gameServerRegistry pa (UID (ObjectMetaOf gs)) = None;
      rangesEachTime rangeOrders;
      Allocate rangeOrders pa gs = Some (Inr (pa', gs'))\<rbrakk>
     \<Longrightarrow> reached minP maxP pa' (gs' # live)"
| deallocated:
    "\<lbrakk>reached minP maxP pa live; g \<in> set live; releasesPortsOf minP maxP gs g\<rbrakk>
     \<Longrightarrow> reached minP maxP (DeAllocate pa gs) (remove1 g live)"
| ignored:
    "\<lbrakk>reached minP maxP pa live;
      gameServerRegistry pa (UID (ObjectMetaOf gs)) = None\<rbrakk>
     \<Longrightarrow> reached minP maxP (DeAllocate pa gs) live"

text \<open>What a returning call of \<open>allocate\<close> has done.\<close>

definition allocateResult ::
  "PortAllocator \<Rightarrow> GameServer \<Rightarrow> (panic + (PortAllocator \<times> GameServer)) \<Rightarrow> bool" where
  "allocateResult pa gs r =
     (\<exists>pa' gs'. r = Inr (pa', gs') \<and>
        wfNodes (portAllocations pa') \<and>
        length (portAllocations pa) \<le> length (portAllocations pa') \<and>
        minPort pa' = minPort pa \<and> maxPort pa' = maxPort pa \<and>
        gameServerRegistry pa' = (gameServerRegistry pa)(UID (ObjectMetaOf gs) \<mapsto> True) \<and>
        (\<forall>q. takenCount (portAllocations pa') q = takenCount (portAllocations pa) q + heldBy gs' q) \<and>
        TypeMetaOf gs' = TypeMetaOf gs \<and> ObjectMetaOf gs' = ObjectMetaOf gs \<and> Status gs' = Status gs \<and>
        Spec gs' = (Spec gs)\<lparr>Ports := Ports (Spec gs')\<rparr> \<and>
        map PortPolicyOf (Ports (Spec gs')) = map PortPolicyOf (Ports (Spec gs)) \<and>
        list_all2 (\<lambda>p p'. PortPolicyOf p = Dynamic \<or> p' = p) (Ports (Spec gs)) (Ports (Spec gs')))"

text \<open>The invariant of the allocator along such a sequence of calls.\<close>

definition allocatorInv :: "int \<Rightarrow> int \<Rightarrow> PortAllocator \<Rightarrow> GameServer list \<Rightarrow> bool" where
  "allocatorInv minP maxP pa live =
     (wfNodes (portAllocations pa) \<and> minPort pa = minP \<and> maxPort pa = maxP \<and>
      dom (gameServerRegistry pa) = (\<lambda>gs. UID (ObjectMetaOf gs)) ` set live \<and>
      distinct (map (\<lambda>gs. UID (ObjectMetaOf gs)) live) \<and>
      (\<forall>q. minP \<le> q \<and> q \<le> maxP \<longrightarrow> takenCount (portAllocations pa) q = heldCount live q))"

section \<open>Fixtures of the repository's tests\<close>

text \<open>A stable insertion sort, newest first: one sort that meets \<open>sort.Slice\<close>'s contract.\<close>

definition insertionNewerFirst ::
  "(GameServer \<Rightarrow> GameServer \<Rightarrow> bool) \<Rightarrow> GameServer list \<Rightarrow> GameServer list" where
  "insertionNewerFirst lessFn xs = rev (sort_key (\<lambda>g. CreationTimestamp (ObjectMetaOf g)) xs)"

definition emptyObjectMeta :: ObjectMeta where
  "emptyObjectMeta =
     \<lparr>Name = [], GenerateName = [], Namespace = [], UID = [], ResourceVersion = [],
      CreationTimestamp = 0, DeletionTimestamp = None, Labels = None, Annotations = None,
      OwnerReferences = [], Finalizers = []\<rparr>"

text \<open>The zero value of the Go struct.\<close>

definition emptyGameServer :: GameServer where
  "emptyGameServer =
     \<lparr>TypeMetaOf = \<lparr>Kind = [], APIVersion = []\<rparr>,
      ObjectMetaOf = emptyObjectMeta,
      Spec = \<lparr>SpecContainer = [], Ports = [],
        HealthOf = \<lparr>Disabled = False, PeriodSeconds = 0, FailureThreshold = 0, InitialDelaySeconds = 0\<rparr>,
        Scheduling = [],
        Template = \<lparr>TemplateObjectMeta = emptyObjectMeta,
          TemplateSpec = \<lparr>Containers = [], ServiceAccountName = [], AffinityOf = None\<rparr>\<rparr>\<rparr>,
      Status = \<lparr>State = [], StatusPorts = [], Address = [], NodeName = []\<rparr>\<rparr>"

definition gsWithState :: "GameServerState \<Rightarrow> GameServer" where
  "gsWithState st = emptyGameServer\<lparr>Status := (Status emptyGameServer)\<lparr>State := st\<rparr>\<rparr>"

definition gsPendingDeletionWithState :: "GameServerState \<Rightarrow> GameServer" where
  "gsPendingDeletionWithState st =
     (gsWithState st)\<lparr>ObjectMetaOf := (ObjectMetaOf (gsWithState st))\<lparr>DeletionTimestamp := Some 1\<rparr>\<rparr>"

definition gsCreatedAt :: "GameServerState \<Rightarrow> Time \<Rightarrow> GameServer" where
  "gsCreatedAt st t =
     (gsWithState st)\<lparr>ObjectMetaOf := (ObjectMetaOf (gsWithState st))\<lparr>CreationTimestamp := t\<rparr>\<rparr>"

text \<open>The invalid GameServer of \<open>TestGameServerValidate\<close>, and one it accepts.\<close>

definition invalidGameServer :: GameServer where
  "invalidGameServer =
     emptyGameServer\<lparr>Spec := (Spec emptyGameServer)
       \<lparr>Ports := [\<lparr>PortName = ''main'', PortPolicyOf = Dynamic, ContainerPortOf = 0,
                    HostPort = 5001, Protocol = []\<rparr>],
        Template := (Template (Spec emptyGameServer))\<lparr>TemplateSpec :=
          \<lparr>Containers = [\<lparr>ContainerName = ''testing'', Image = ''testing/image'', ContainerPorts = []\<rparr>,
                          \<lparr>ContainerName = ''anothertest'', Image = ''testing/image'', ContainerPorts = []\<rparr>],
           ServiceAccountName = [], AffinityOf = None\<rparr>\<rparr>\<rparr>\<rparr>"

text \<open>The fixture of \<open>TestGameServerPod\<close> before \<open>ApplyDefaults\<close>, and its sidecar.\<close>

definition podFixture :: GameServer where
  "podFixture =
     emptyGameServer\<lparr>
       ObjectMetaOf := emptyObjectMeta\<lparr>Name := ''test'', Namespace := ''default'', UID := ''1234''\<rparr>,
       Spec := (Spec emptyGameServer)
         \<lparr>Ports := [\<lparr>PortName = [], PortPolicyOf = Static, ContainerPortOf = 7777,
                      HostPort = 9999, Protocol = []\<rparr>],
          Template := (Template (Spec emptyGameServer))\<lparr>TemplateSpec :=
            \<lparr>Containers = [\<lparr>ContainerName = ''container'', Image = ''container/image'',
                             ContainerPorts = []\<rparr>],
             ServiceAccountName = [], AffinityOf = None\<rparr>\<rparr>\<rparr>,
       Status := (Status emptyGameServer)\<lparr>State := GameServerStateCreating\<rparr>\<rparr>"

definition sidecarFixture :: Container where
  "sidecarFixture = \<lparr>ContainerName = ''sidecar'', Image = ''container/sidecar'', ContainerPorts = []\<rparr>"

text \<open>A GameServer with the given UID and ports, each a policy and a host port.\<close>

definition gsWithPorts :: "string \<Rightarrow> (PortPolicy \<times> int) list \<Rightarrow> GameServer" where
  "gsWithPorts uid ports =
     emptyGameServer\<lparr>ObjectMetaOf := emptyObjectMeta\<lparr>UID := uid\<rparr>,
       Spec := (Spec emptyGameServer)\<lparr>Ports :=
         map (\<lambda>(policy, hostPort).
               \<lparr>PortName = [], PortPolicyOf = policy, ContainerPortOf = 7777,
                HostPort = hostPort, Protocol = ''UDP''\<rparr>) ports\<rparr>\<rparr>"

section \<open>Properties of the reconciliation\<close>

lemmas state_defs = GameServerStatePortAllocation_def GameServerStateCreating_def
  GameServerStateStarting_def GameServerStateScheduled_def GameServerStateRequestReady_def
  GameServerStateReady_def GameServerStateShutdown_def GameServerStateError_def
  GameServerStateUnhealthy_def GameServerStateAllocated_def

lemmas fixture_defs = emptyObjectMeta_def emptyGameServer_def gsWithState_def
  gsPendingDeletionWithState_def gsCreatedAt_def invalidGameServer_def podFixture_def
  sidecarFixture_def

lemmas reconcile_defs = tally_def pass2Body_def isAllocated_def handleGameServerUp_def
  scheduleDeletion_def IsZero_def pendingUp_def computeReconciliationAction_def
  capCreations_def wrapInt_def

lemma insertionNewerFirst_sorts: "sortsNewerFirst insertionNewerFirst"
  unfolding sortsNewerFirst_def insertionNewerFirst_def
proof (intro allI conjI)
  fix xs :: "GameServer list"
  show "mset (rev (sort_key (\<lambda>g. CreationTimestamp (ObjectMetaOf g)) xs)) = mset xs"
    by simp
  have "sorted (map (\<lambda>g. CreationTimestamp (ObjectMetaOf g)) (sort_key (\<lambda>g. CreationTimestamp (ObjectMetaOf g)) xs))"
    by (rule sorted_sort_key)
  then have "sorted_wrt (\<lambda>a b. CreationTimestamp (ObjectMetaOf a) \<le> CreationTimestamp (ObjectMetaOf b))
      (sort_key (\<lambda>g. CreationTimestamp (ObjectMetaOf g)) xs)"
    by (simp add: sorted_wrt_map)
  then have "sorted_wrt (\<lambda>b a. CreationTimestamp (ObjectMetaOf a) \<le> CreationTimestamp (ObjectMetaOf b))
      (rev (sort_key (\<lambda>g. CreationTimestamp (ObjectMetaOf g)) xs))"
    by (simp add: sorted_wrt_rev)
  then show "sorted_wrt (\<lambda>a b. \<not> newerFirst b a)
      (rev (sort_key (\<lambda>g. CreationTimestamp (ObjectMetaOf g)) xs))"
    by (simp add: newerFirst_def After_def not_less)
qed


lemma scheduleDeletion_upCount [simp]: "upCount (scheduleDeletion gs s) = upCount s"
  and scheduleDeletion_pending [simp]: "podPendingCount (scheduleDeletion gs s) = podPendingCount s"
  by (simp_all add: scheduleDeletion_def)

lemma scheduleDeletion_set:
  "set (toDelete (scheduleDeletion gs s)) \<subseteq> insert gs (set (toDelete s))"
  by (auto simp: scheduleDeletion_def)

lemma handleGameServerUp_set:
  "set (toDelete (handleGameServerUp t gs s)) \<subseteq> insert gs (set (toDelete s))"
  using scheduleDeletion_set [of gs s] by (auto simp: handleGameServerUp_def)

lemma pendingUp_set:
  "set (toDelete (pendingUp t gs s)) \<subseteq> insert gs (set (toDelete s))"
  using handleGameServerUp_set [of t gs "s\<lparr>podPendingCount := podPendingCount s + 1\<rparr>"]
  by (simp add: pendingUp_def)

lemma pass2Body_set:
  "set (toDelete (pass2Body t gs s)) \<subseteq> (if isAllocated gs then {} else {gs}) \<union> set (toDelete s)"
  using pendingUp_set [of t gs s] handleGameServerUp_set [of t gs s] scheduleDeletion_set [of gs s]
  by (auto simp: pass2Body_def)

lemma pass2_not_allocated:
  "\<forall>g \<in> set (toDelete s). \<not> isAllocated g \<Longrightarrow> \<forall>g \<in> set (toDelete (pass2 t list s)). \<not> isAllocated g"
proof (induction list arbitrary: s)
  case Nil
  then show ?case by simp
next
  case (Cons gs rest)
  have "\<forall>g \<in> set (toDelete (pass2Body t gs s)). \<not> isAllocated g"
    using pass2Body_set [of t gs s] Cons.prems by (auto split: if_splits)
  then show ?case using Cons.IH by simp
qed

lemma pass1_toDelete [simp]: "toDelete (pass1 list s) = toDelete s"
  by (induction list arbitrary: s) auto

lemma tally_not_allocated: "g \<in> set (toDelete (tally list t)) \<Longrightarrow> \<not> isAllocated g"
  using pass2_not_allocated [of "pass1 list \<lparr>upCount = 0, podPendingCount = 0, toDelete = []\<rparr>" t list]
  by (simp add: tally_def)

lemma sortsNewerFirst_set: "sortsNewerFirst srt \<Longrightarrow> set (srt newerFirst xs) = set xs"
  unfolding sortsNewerFirst_def by (metis set_mset_mset)


text \<open>
  Claim C4. Whatever the list, the target and the caps, a GameServer that is Allocated and has
  no deletion timestamp (\<open>isAllocated\<close>) is not in the \<open>toDelete\<close> list that
  \<open>computeReconciliationAction\<close> returns.
\<close>

theorem allocated_never_in_toDelete:
  assumes "sortsNewerFirst sortSlice"
    and "computeReconciliationAction sortSlice list targetReplicaCount maxCreations maxDeletions maxPending
           = Inr (numServersToAdd, deleted, partialReconciliation)"
    and "isAllocated gs"
  shows "gs \<notin> set deleted"
proof
  assume "gs \<in> set deleted"
  have "set deleted \<subseteq> set (toDelete (tally list targetReplicaCount))"
    using assms(2) sortsNewerFirst_set [OF assms(1), of "toDelete (tally list targetReplicaCount)"]
    by (auto simp: computeReconciliationAction_def Let_def split: prod.splits if_splits dest: in_set_takeD)
  with \<open>gs \<in> set deleted\<close> assms(3) tally_not_allocated show False by blast
qed

theorem allocated_never_in_toDelete_witness:
  "sortsNewerFirst insertionNewerFirst \<and>
   computeReconciliationAction insertionNewerFirst
     [gsWithState GameServerStateReady, gsWithState GameServerStateAllocated,
      gsWithState GameServerStateAllocated] 0 3 3 3
     = Inr (0, [gsWithState GameServerStateReady], False) \<and>
   isAllocated (gsWithState GameServerStateAllocated) \<and>
   gsWithState GameServerStateAllocated \<notin> set [gsWithState GameServerStateReady]"
proof -
  have r: "computeReconciliationAction insertionNewerFirst
     [gsWithState GameServerStateReady, gsWithState GameServerStateAllocated,
      gsWithState GameServerStateAllocated] 0 3 3 3
     = Inr (0, [gsWithState GameServerStateReady], False)"
    by (simp add: reconcile_defs fixture_defs state_defs)
  have a: "isAllocated (gsWithState GameServerStateAllocated)"
    by (simp add: isAllocated_def fixture_defs)
  from allocated_never_in_toDelete [OF insertionNewerFirst_sorts r a] insertionNewerFirst_sorts r a
  show ?thesis by blast
qed

lemma wrapInt_id: "isInt x \<Longrightarrow> wrapInt x = x"
  by (simp add: wrapInt_def isInt_def)

lemma scheduleDeletion_zero:
  "\<forall>g \<in> set (toDelete s). IsZero (DeletionTimestamp (ObjectMetaOf g)) \<Longrightarrow>
   \<forall>g \<in> set (toDelete (scheduleDeletion gs s)). IsZero (DeletionTimestamp (ObjectMetaOf g))"
  by (auto simp: scheduleDeletion_def)

lemma pass2Body_zero:
  "\<forall>g \<in> set (toDelete s). IsZero (DeletionTimestamp (ObjectMetaOf g)) \<Longrightarrow>
   \<forall>g \<in> set (toDelete (pass2Body t gs s)). IsZero (DeletionTimestamp (ObjectMetaOf g))"
  by (auto simp: pass2Body_def pendingUp_def handleGameServerUp_def scheduleDeletion_def)

lemma pass2_zero:
  "\<forall>g \<in> set (toDelete s). IsZero (DeletionTimestamp (ObjectMetaOf g)) \<Longrightarrow>
   \<forall>g \<in> set (toDelete (pass2 t list s)). IsZero (DeletionTimestamp (ObjectMetaOf g))"
proof (induction list arbitrary: s)
  case Nil
  then show ?case by simp
next
  case (Cons gs rest)
  have "\<forall>g \<in> set (toDelete (pass2Body t gs s)). IsZero (DeletionTimestamp (ObjectMetaOf g))"
    using Cons.prems by (rule pass2Body_zero)
  then show ?case using Cons.IH by simp
qed

lemma tally_zero:
  "g \<in> set (toDelete (tally list t)) \<Longrightarrow> IsZero (DeletionTimestamp (ObjectMetaOf g))"
  using pass2_zero [of "pass1 list \<lparr>upCount = 0, podPendingCount = 0, toDelete = []\<rparr>" t list]
  by (simp add: tally_def)

lemma pass1_append: "pass1 (xs @ ys) s = pass1 ys (pass1 xs s)"
  by (induction xs arbitrary: s) auto

lemma pass2_append: "pass2 t (xs @ ys) s = pass2 t ys (pass2 t xs s)"
  by (induction xs arbitrary: s) auto

lemma deleting_not_allocated:
  "\<not> IsZero (DeletionTimestamp (ObjectMetaOf gs)) \<Longrightarrow> \<not> isAllocated gs"
  by (auto simp: isAllocated_def IsZero_def)

lemma tally_skip_deleting:
  assumes "\<not> IsZero (DeletionTimestamp (ObjectMetaOf gs))"
  shows "tally (xs @ gs # ys) t = tally (xs @ ys) t"
proof -
  have na: "\<not> isAllocated gs" using assms by (rule deleting_not_allocated)
  have b: "pass2Body t gs s = s" for s
    using assms na by (simp add: pass2Body_def)
  show ?thesis
    by (simp add: tally_def pass1_append pass2_append na b)
qed

lemma result_subset:
  assumes "sortsNewerFirst sortSlice"
    and "computeReconciliationAction sortSlice list t mc md mp = Inr (a, deleted, p)"
  shows "set deleted \<subseteq> set (toDelete (tally list t))"
  using assms(2) sortsNewerFirst_set [OF assms(1), of "toDelete (tally list t)"]
  by (auto simp: computeReconciliationAction_def Let_def split: prod.splits if_splits dest: in_set_takeD)


text \<open>
  Claim C6. A GameServer with a non-zero deletion timestamp changes none of the up count, the
  pod-pending count and the deletion candidates (the tally is the same with it and without
  it), and it is never in \<open>toDelete\<close>. For target 4 and the list
  [Deleting(Unhealthy), Deleting(Unhealthy), Ready] with the default caps 64, 64 and 5000 the
  result is \<open>toAdd = 3\<close> and an empty \<open>toDelete\<close>.
\<close>

theorem deleting_gameserver_ignored:
  assumes "\<not> IsZero (DeletionTimestamp (ObjectMetaOf gs))"
    and "sortsNewerFirst sortSlice"
  shows "tally (xs @ gs # ys) targetReplicaCount = tally (xs @ ys) targetReplicaCount \<and>
    gs \<notin> set (toDelete (tally list targetReplicaCount)) \<and>
    (\<forall>n deleted p. computeReconciliationAction sortSlice list targetReplicaCount maxCreations maxDeletions maxPending
         = Inr (n, deleted, p) \<longrightarrow> gs \<notin> set deleted) \<and>
    computeReconciliationAction sortSlice
      [gsPendingDeletionWithState GameServerStateUnhealthy,
       gsPendingDeletionWithState GameServerStateUnhealthy,
       gsWithState GameServerStateReady] 4 64 64 5000 = Inr (3, [], False)"
proof (intro conjI allI impI)
  show "tally (xs @ gs # ys) targetReplicaCount = tally (xs @ ys) targetReplicaCount"
    using assms(1) by (rule tally_skip_deleting)
  show "gs \<notin> set (toDelete (tally list targetReplicaCount))"
    using assms(1) tally_zero by blast
  then show "gs \<notin> set deleted"
    if "computeReconciliationAction sortSlice list targetReplicaCount maxCreations maxDeletions maxPending
         = Inr (n, deleted, p)" for n deleted p
    using result_subset [OF assms(2) that] by blast
  show "computeReconciliationAction sortSlice
      [gsPendingDeletionWithState GameServerStateUnhealthy,
       gsPendingDeletionWithState GameServerStateUnhealthy,
       gsWithState GameServerStateReady] 4 64 64 5000 = Inr (3, [], False)"
    by (simp add: reconcile_defs fixture_defs state_defs)
qed

theorem deleting_gameserver_ignored_witness:
  "\<not> IsZero (DeletionTimestamp (ObjectMetaOf (gsPendingDeletionWithState GameServerStateUnhealthy))) \<and>
   sortsNewerFirst insertionNewerFirst \<and>
   tally ([gsPendingDeletionWithState GameServerStateUnhealthy] @
          gsPendingDeletionWithState GameServerStateUnhealthy # [gsWithState GameServerStateReady]) 4
     = tally ([gsPendingDeletionWithState GameServerStateUnhealthy] @ [gsWithState GameServerStateReady]) 4 \<and>
   computeReconciliationAction insertionNewerFirst
      [gsPendingDeletionWithState GameServerStateUnhealthy,
       gsPendingDeletionWithState GameServerStateUnhealthy,
       gsWithState GameServerStateReady] 4 64 64 5000 = Inr (3, [], False)"
proof -
  have z: "\<not> IsZero (DeletionTimestamp (ObjectMetaOf (gsPendingDeletionWithState GameServerStateUnhealthy)))"
    by (simp add: IsZero_def fixture_defs)
  from deleting_gameserver_ignored [OF z insertionNewerFirst_sorts,
      of "[gsPendingDeletionWithState GameServerStateUnhealthy]" "[gsWithState GameServerStateReady]" 4]
    z insertionNewerFirst_sorts
  show ?thesis by blast
qed

lemma up_bounds:
  "0 \<le> upCount s \<Longrightarrow> podPendingCount s \<le> upCount s \<Longrightarrow> 0 \<le> podPendingCount s \<Longrightarrow>
   upCount (pass2 t list s) < t \<Longrightarrow>
   0 \<le> podPendingCount (pass2 t list s) \<and> podPendingCount (pass2 t list s) \<le> upCount (pass2 t list s)"
proof (induction list arbitrary: s)
  case Nil
  then show ?case by simp
next
  case (Cons gs rest)
  have mono: "upCount s' \<le> upCount (pass2 t l s')" for l s'
  proof (induction l arbitrary: s')
    case Nil
    show ?case by simp
  next
    case (Cons g l)
    have "upCount s' \<le> upCount (pass2Body t g s')"
      by (simp add: pass2Body_def pendingUp_def handleGameServerUp_def)
    with Cons [of "pass2Body t g s'"] show ?case by simp
  qed
  have lt: "upCount (pass2Body t gs s) < t"
    using mono [of "pass2Body t gs s" rest] Cons.prems(4) by simp
  have up_s: "upCount s < t"
    using lt by (simp add: pass2Body_def pendingUp_def handleGameServerUp_def split: if_splits)
  have "0 \<le> upCount (pass2Body t gs s) \<and> podPendingCount (pass2Body t gs s) \<le> upCount (pass2Body t gs s)
      \<and> 0 \<le> podPendingCount (pass2Body t gs s)"
    using Cons.prems(1-3) up_s
    by (simp add: pass2Body_def pendingUp_def handleGameServerUp_def scheduleDeletion_def)
  with Cons.IH [of "pass2Body t gs s"] Cons.prems(4) show ?case by simp
qed

lemma pass1_counts: "podPendingCount (pass1 list s) = podPendingCount s \<and> upCount s \<le> upCount (pass1 list s)"
proof (induction list arbitrary: s)
  case Nil
  show ?case by simp
next
  case (Cons g l)
  from Cons [of "if isAllocated g then s\<lparr>upCount := upCount s + 1\<rparr> else s"] show ?case
    by (auto split: if_splits)
qed

lemma tally_bounds:
  assumes "upCount (tally list t) < t"
  shows "0 \<le> podPendingCount (tally list t) \<and> podPendingCount (tally list t) \<le> upCount (tally list t)"
  using up_bounds [of "pass1 list \<lparr>upCount = 0, podPendingCount = 0, toDelete = []\<rparr>" t list]
    pass1_counts [of list "\<lparr>upCount = 0, podPendingCount = 0, toDelete = []\<rparr>"] assms
  by (simp add: tally_def)


text \<open>
  Claim C3, as amended. For arguments in the range of Go's \<open>int\<close>, a non-negative
  \<open>maxDeletions\<close> and \<open>maxPending - podPendingCount\<close> above the least \<open>int\<close>:
  when \<open>up < target\<close>, \<open>toAdd\<close> is \<open>target - up\<close> capped at \<open>maxCreations\<close> and
  then, if \<open>toAdd + podPendingCount\<close> exceeds \<open>maxPending\<close>, set to
  \<open>maxPending - podPendingCount\<close> clamped at zero; \<open>partial\<close> is true exactly when a
  cap reduced \<open>toAdd\<close> or there are more deletion candidates than \<open>maxDeletions\<close>.
\<close>

theorem creations_capped:
  assumes "isInt targetReplicaCount" and "isInt maxCreations" and "isInt maxPending"
    and "0 \<le> maxDeletions"
    and "upCount (tally list targetReplicaCount) < targetReplicaCount"
    and "- (2 ^ 63) \<le> maxPending - podPendingCount (tally list targetReplicaCount)"
  shows "computeReconciliationAction sortSlice list targetReplicaCount maxCreations maxDeletions maxPending =
    (let up = upCount (tally list targetReplicaCount);
         pending = podPendingCount (tally list targetReplicaCount);
         candidates = toDelete (tally list targetReplicaCount);
         capped = min (targetReplicaCount - up) maxCreations;
         toAdd = (if capped + pending > maxPending then max 0 (maxPending - pending) else capped)
     in Inr (toAdd,
             if int (length candidates) > maxDeletions
             then take (nat maxDeletions) (sortSlice newerFirst candidates) else candidates,
             toAdd < targetReplicaCount - up \<or> int (length candidates) > maxDeletions))"
proof -
  define up where "up = upCount (tally list targetReplicaCount)"
  define pending where "pending = podPendingCount (tally list targetReplicaCount)"
  have b: "0 \<le> pending" "pending \<le> up"
    using tally_bounds [OF assms(5)] by (simp_all add: up_def pending_def)
  have lt: "up < targetReplicaCount" using assms(5) by (simp add: up_def)
  have up0: "0 \<le> up" using b by simp
  have w1: "wrapInt (targetReplicaCount - up) = targetReplicaCount - up"
    using assms(1) lt up0 by (intro wrapInt_id) (simp add: isInt_def)
  have w2: "wrapInt (min (targetReplicaCount - up) maxCreations + pending)
      = min (targetReplicaCount - up) maxCreations + pending"
    using assms(1,2) lt b by (intro wrapInt_id) (auto simp add: isInt_def min_def)
  have w3: "wrapInt (maxPending - pending) = maxPending - pending"
    using assms(3,6) b by (intro wrapInt_id) (simp add: isInt_def pending_def)
  have cap: "capCreations up pending targetReplicaCount maxCreations maxPending =
    (let capped = min (targetReplicaCount - up) maxCreations;
         toAdd = (if capped + pending > maxPending then max 0 (maxPending - pending) else capped)
     in (toAdd, toAdd < targetReplicaCount - up))"
    using lt w2 w3 by (auto simp add: capCreations_def w1 Let_def min_def max_def)
  show ?thesis
    using assms(4) cap
    by (auto simp add: computeReconciliationAction_def Let_def up_def [symmetric] pending_def [symmetric])
qed

theorem creations_capped_witness:
  "isInt 30 \<and> isInt 3 \<and> 0 \<le> (3::int) \<and>
   upCount (tally [gsWithState GameServerStateReady] 30) < 30 \<and>
   - (2 ^ 63) \<le> 3 - podPendingCount (tally [gsWithState GameServerStateReady] 30) \<and>
   computeReconciliationAction insertionNewerFirst [gsWithState GameServerStateReady] 30 3 3 3
     = Inr (3, [], True)"
proof -
  have i30: "isInt 30" and i3: "isInt 3" by (simp_all add: isInt_def)
  have d: "0 \<le> (3::int)" by simp
  have t: "tally [gsWithState GameServerStateReady] 30
      = \<lparr>upCount = 1, podPendingCount = 0, toDelete = []\<rparr>"
    by (simp add: reconcile_defs fixture_defs state_defs)
  have u: "upCount (tally [gsWithState GameServerStateReady] 30) < 30"
    by (simp add: t)
  have p: "- (2 ^ 63) \<le> 3 - podPendingCount (tally [gsWithState GameServerStateReady] 30)"
    by (simp add: t)
  from creations_capped [OF i30 i3 i3 d u p, of insertionNewerFirst]
  have "computeReconciliationAction insertionNewerFirst [gsWithState GameServerStateReady] 30 3 3 3
     = Inr (3, [], True)"
    by (simp add: t Let_def)
  with i30 i3 d u p show ?thesis by blast
qed

text \<open>
  Claim C3 as stated fails: with two Unhealthy GameServers, target 1, the default creation
  and pending caps and \<open>maxDeletions = 1\<close>, \<open>up = 0 < 1\<close> and \<open>toAdd = 1 = target - up\<close>,
  so neither cap reduced the value, and yet \<open>partial\<close> is true, because the deletions were
  truncated.
\<close>

theorem partial_without_creation_cap_counterexample:
  "upCount (tally [gsWithState GameServerStateUnhealthy, gsWithState GameServerStateUnhealthy] 1) = 0 \<and>
   podPendingCount (tally [gsWithState GameServerStateUnhealthy, gsWithState GameServerStateUnhealthy] 1) = 0 \<and>
   computeReconciliationAction insertionNewerFirst
     [gsWithState GameServerStateUnhealthy, gsWithState GameServerStateUnhealthy] 1 64 1 5000
     = Inr (1, [gsWithState GameServerStateUnhealthy], True)"
  by (simp add: reconcile_defs fixture_defs state_defs insertionNewerFirst_def)

text \<open>
  Claim C5. When there are more deletion candidates than \<open>maxDeletions\<close> (a count, so not
  negative), the call returns with \<open>partial = true\<close> and a \<open>toDelete\<close> of exactly
  \<open>maxDeletions\<close> candidates, each of them at least as new (by creation timestamp) as
  every candidate that was spared.
\<close>

theorem newest_deleted_first:
  assumes "sortsNewerFirst sortSlice"
    and "0 \<le> maxDeletions"
    and "int (length (toDelete (tally list targetReplicaCount))) > maxDeletions"
  shows "\<exists>n deleted.
    computeReconciliationAction sortSlice list targetReplicaCount maxCreations maxDeletions maxPending
      = Inr (n, deleted, True) \<and>
    int (length deleted) = maxDeletions \<and>
    mset deleted \<subseteq># mset (toDelete (tally list targetReplicaCount)) \<and>
    (\<forall>d \<in># mset deleted. \<forall>k \<in># mset (toDelete (tally list targetReplicaCount)) - mset deleted.
       CreationTimestamp (ObjectMetaOf k) \<le> CreationTimestamp (ObjectMetaOf d))"
proof -
  define cands where "cands = toDelete (tally list targetReplicaCount)"
  define sorted where "sorted = sortSlice newerFirst cands"
  define deleted where "deleted = take (nat maxDeletions) sorted"
  have ms: "mset sorted = mset cands" and sw: "sorted_wrt (\<lambda>a b. \<not> newerFirst b a) sorted"
    using assms(1) by (simp_all add: sortsNewerFirst_def sorted_def)
  have len: "length sorted = length cands" using ms by (metis size_mset)
  have split: "sorted = deleted @ drop (nat maxDeletions) sorted"
    by (simp add: deleted_def)
  have rest: "mset cands - mset deleted = mset (drop (nat maxDeletions) sorted)"
    by (metis add_diff_cancel_left' ms mset_append split)
  have "sorted_wrt (\<lambda>a b. \<not> newerFirst b a) (deleted @ drop (nat maxDeletions) sorted)"
    using sw split by simp
  then have order: "\<forall>d \<in> set deleted. \<forall>k \<in> set (drop (nat maxDeletions) sorted). \<not> newerFirst k d"
    by (simp add: sorted_wrt_append)
  have "computeReconciliationAction sortSlice list targetReplicaCount maxCreations maxDeletions maxPending
      = Inr (fst (capCreations (upCount (tally list targetReplicaCount))
                (podPendingCount (tally list targetReplicaCount)) targetReplicaCount maxCreations maxPending),
             deleted, True)"
    using assms(2,3)
    by (simp add: computeReconciliationAction_def Let_def deleted_def sorted_def cands_def split: prod.splits)
  moreover have "int (length deleted) = maxDeletions"
    using assms(2,3) len by (simp add: deleted_def cands_def)
  moreover have "mset deleted \<subseteq># mset cands"
    by (metis ms mset_subset_eq_add_left mset_append split)
  moreover have "\<forall>d \<in># mset deleted. \<forall>k \<in># mset cands - mset deleted.
       CreationTimestamp (ObjectMetaOf k) \<le> CreationTimestamp (ObjectMetaOf d)"
    using order by (auto simp add: rest newerFirst_def After_def not_less)
  ultimately show ?thesis unfolding cands_def by blast
qed

theorem newest_deleted_first_witness:
  "sortsNewerFirst insertionNewerFirst \<and> 0 \<le> (3::int) \<and>
   int (length (toDelete (tally
     [gsCreatedAt GameServerStateReady 1, gsCreatedAt GameServerStateReady 2,
      gsCreatedAt GameServerStateReady 3, gsCreatedAt GameServerStateReady 4,
      gsCreatedAt GameServerStateReady 5, gsCreatedAt GameServerStateReady 6] 1))) > 3 \<and>
   computeReconciliationAction insertionNewerFirst
     [gsCreatedAt GameServerStateReady 1, gsCreatedAt GameServerStateReady 2,
      gsCreatedAt GameServerStateReady 3, gsCreatedAt GameServerStateReady 4,
      gsCreatedAt GameServerStateReady 5, gsCreatedAt GameServerStateReady 6] 1 3 3 3
     = Inr (0, [gsCreatedAt GameServerStateReady 6, gsCreatedAt GameServerStateReady 5,
                gsCreatedAt GameServerStateReady 4], True)"
proof -
  let ?list = "[gsCreatedAt GameServerStateReady 1, gsCreatedAt GameServerStateReady 2,
      gsCreatedAt GameServerStateReady 3, gsCreatedAt GameServerStateReady 4,
      gsCreatedAt GameServerStateReady 5, gsCreatedAt GameServerStateReady 6]"
  have d: "0 \<le> (3::int)" by simp
  have t: "toDelete (tally ?list 1) =
      [gsCreatedAt GameServerStateReady 2, gsCreatedAt GameServerStateReady 3,
       gsCreatedAt GameServerStateReady 4, gsCreatedAt GameServerStateReady 5,
       gsCreatedAt GameServerStateReady 6]"
    by (simp add: reconcile_defs fixture_defs state_defs)
  have l: "int (length (toDelete (tally ?list 1))) > 3"
    by (simp add: t)
  have r: "computeReconciliationAction insertionNewerFirst ?list 1 3 3 3
     = Inr (0, [gsCreatedAt GameServerStateReady 6, gsCreatedAt GameServerStateReady 5,
                gsCreatedAt GameServerStateReady 4], True)"
    by (simp add: reconcile_defs fixture_defs state_defs insertionNewerFirst_def)
  from newest_deleted_first [OF insertionNewerFirst_sorts d l, of 3 3]
  have "\<exists>n deleted. computeReconciliationAction insertionNewerFirst ?list 1 3 3 3 = Inr (n, deleted, True)"
    by blast
  with insertionNewerFirst_sorts d l r show ?thesis by blast
qed

section \<open>Properties of the GameServer methods\<close>

lemma portDefaults_idem: "portDefaults (portDefaults p) = portDefaults p"
  by (simp add: portDefaults_def Let_def Dynamic_def)

lemma container_fix:
  "(case Containers (TemplateSpec (Template (Spec gs))) of [c] \<Rightarrow> SpecContainer (Spec gs) = ContainerName c | _ \<Rightarrow> True)
   \<Longrightarrow> applyContainerDefaults gs = gs"
  by (cases gs) (auto simp add: applyContainerDefaults_def split: list.splits)

lemma ports_fix: "map portDefaults (Ports (Spec gs)) = Ports (Spec gs) \<Longrightarrow> applyPortDefaults gs = gs"
  by (simp add: applyPortDefaults_def)

lemma state_fix: "State (Status gs) \<noteq> [] \<Longrightarrow> applyStateDefaults gs = gs"
  by (simp add: applyStateDefaults_def)

lemma health_fix:
  "Disabled (HealthOf (Spec gs)) \<or> (0 < PeriodSeconds (HealthOf (Spec gs)) \<and>
     0 < FailureThreshold (HealthOf (Spec gs)) \<and> 0 < InitialDelaySeconds (HealthOf (Spec gs)))
   \<Longrightarrow> applyHealthDefaults gs = gs"
  by (auto simp add: applyHealthDefaults_def Let_def)

lemma scheduling_fix: "Scheduling (Spec gs) \<noteq> [] \<Longrightarrow> applySchedulingDefaults gs = gs"
  by (simp add: applySchedulingDefaults_def)

lemma container_sel:
  "Ports (Spec (applyContainerDefaults gs)) = Ports (Spec gs)"
  "HealthOf (Spec (applyContainerDefaults gs)) = HealthOf (Spec gs)"
  "Scheduling (Spec (applyContainerDefaults gs)) = Scheduling (Spec gs)"
  "Template (Spec (applyContainerDefaults gs)) = Template (Spec gs)"
  "Status (applyContainerDefaults gs) = Status gs"
  "ObjectMetaOf (applyContainerDefaults gs) = ObjectMetaOf gs"
  "TypeMetaOf (applyContainerDefaults gs) = TypeMetaOf gs"
  "SpecContainer (Spec (applyContainerDefaults gs)) =
     (case Containers (TemplateSpec (Template (Spec gs))) of [c] \<Rightarrow> ContainerName c | _ \<Rightarrow> SpecContainer (Spec gs))"
  by (simp_all add: applyContainerDefaults_def split: list.splits)

lemma ports_sel:
  "Ports (Spec (applyPortDefaults gs)) = map portDefaults (Ports (Spec gs))"
  "HealthOf (Spec (applyPortDefaults gs)) = HealthOf (Spec gs)"
  "Scheduling (Spec (applyPortDefaults gs)) = Scheduling (Spec gs)"
  "Template (Spec (applyPortDefaults gs)) = Template (Spec gs)"
  "SpecContainer (Spec (applyPortDefaults gs)) = SpecContainer (Spec gs)"
  "Status (applyPortDefaults gs) = Status gs"
  "ObjectMetaOf (applyPortDefaults gs) = ObjectMetaOf gs"
  "TypeMetaOf (applyPortDefaults gs) = TypeMetaOf gs"
  by (simp_all add: applyPortDefaults_def)

lemma state_sel:
  "Spec (applyStateDefaults gs) = Spec gs"
  "State (Status (applyStateDefaults gs)) \<noteq> []"
  "ObjectMetaOf (applyStateDefaults gs) = ObjectMetaOf gs"
  "TypeMetaOf (applyStateDefaults gs) = TypeMetaOf gs"
  by (simp_all add: applyStateDefaults_def GameServerStatePortAllocation_def GameServerStateCreating_def)

lemma health_sel:
  "Ports (Spec (applyHealthDefaults gs)) = Ports (Spec gs)"
  "Scheduling (Spec (applyHealthDefaults gs)) = Scheduling (Spec gs)"
  "Template (Spec (applyHealthDefaults gs)) = Template (Spec gs)"
  "SpecContainer (Spec (applyHealthDefaults gs)) = SpecContainer (Spec gs)"
  "Status (applyHealthDefaults gs) = Status gs"
  "ObjectMetaOf (applyHealthDefaults gs) = ObjectMetaOf gs"
  "TypeMetaOf (applyHealthDefaults gs) = TypeMetaOf gs"
  by (simp_all add: applyHealthDefaults_def Let_def)

lemma health_done:
  "Disabled (HealthOf (Spec (applyHealthDefaults gs))) \<or>
     (0 < PeriodSeconds (HealthOf (Spec (applyHealthDefaults gs))) \<and>
      0 < FailureThreshold (HealthOf (Spec (applyHealthDefaults gs))) \<and>
      0 < InitialDelaySeconds (HealthOf (Spec (applyHealthDefaults gs))))"
  by (simp add: applyHealthDefaults_def Let_def)

lemma scheduling_sel:
  "Ports (Spec (applySchedulingDefaults gs)) = Ports (Spec gs)"
  "HealthOf (Spec (applySchedulingDefaults gs)) = HealthOf (Spec gs)"
  "Template (Spec (applySchedulingDefaults gs)) = Template (Spec gs)"
  "SpecContainer (Spec (applySchedulingDefaults gs)) = SpecContainer (Spec gs)"
  "Status (applySchedulingDefaults gs) = Status gs"
  "ObjectMetaOf (applySchedulingDefaults gs) = ObjectMetaOf gs"
  "TypeMetaOf (applySchedulingDefaults gs) = TypeMetaOf gs"
  "Scheduling (Spec (applySchedulingDefaults gs)) \<noteq> []"
  by (simp_all add: applySchedulingDefaults_def Packed_def)

lemma finalizer_sel:
  "Spec (addFinalizer gs) = Spec gs"
  "Status (addFinalizer gs) = Status gs"
  "TypeMetaOf (addFinalizer gs) = TypeMetaOf gs"
  by (simp_all add: addFinalizer_def)

lemmas defaults_sel = container_sel ports_sel state_sel health_sel scheduling_sel finalizer_sel

lemma ApplyDefaults_alt:
  "ApplyDefaults gs = applySchedulingDefaults (applyHealthDefaults (applyStateDefaults
     (applyPortDefaults (applyContainerDefaults (addFinalizer gs)))))"
  by (simp add: ApplyDefaults_def addFinalizer_def)

lemma fix_container: "applyContainerDefaults (ApplyDefaults gs) = ApplyDefaults gs"
  by (rule container_fix) (simp add: ApplyDefaults_alt defaults_sel split: list.splits)

lemma fix_ports: "applyPortDefaults (ApplyDefaults gs) = ApplyDefaults gs"
  by (rule ports_fix) (simp add: ApplyDefaults_alt defaults_sel portDefaults_idem)

lemma fix_state: "applyStateDefaults (ApplyDefaults gs) = ApplyDefaults gs"
  by (rule state_fix) (simp add: ApplyDefaults_alt defaults_sel)

lemma fix_health: "applyHealthDefaults (ApplyDefaults gs) = ApplyDefaults gs"
proof (rule health_fix)
  have "HealthOf (Spec (ApplyDefaults gs)) = HealthOf (Spec (applyHealthDefaults (applyStateDefaults
     (applyPortDefaults (applyContainerDefaults (addFinalizer gs))))))"
    by (simp add: ApplyDefaults_alt scheduling_sel)
  then show "Disabled (HealthOf (Spec (ApplyDefaults gs))) \<or>
     (0 < PeriodSeconds (HealthOf (Spec (ApplyDefaults gs))) \<and>
      0 < FailureThreshold (HealthOf (Spec (ApplyDefaults gs))) \<and>
      0 < InitialDelaySeconds (HealthOf (Spec (ApplyDefaults gs))))"
    using health_done [of "applyStateDefaults (applyPortDefaults (applyContainerDefaults (addFinalizer gs)))"]
    by simp
qed

lemma fix_scheduling: "applySchedulingDefaults (ApplyDefaults gs) = ApplyDefaults gs"
  by (rule scheduling_fix) (simp add: ApplyDefaults_alt defaults_sel)

lemma finalizer_commutes:
  "applyContainerDefaults (addFinalizer gs) = addFinalizer (applyContainerDefaults gs)"
  "applyPortDefaults (addFinalizer gs) = addFinalizer (applyPortDefaults gs)"
  "applyStateDefaults (addFinalizer gs) = addFinalizer (applyStateDefaults gs)"
  "applyHealthDefaults (addFinalizer gs) = addFinalizer (applyHealthDefaults gs)"
  "applySchedulingDefaults (addFinalizer gs) = addFinalizer (applySchedulingDefaults gs)"
  by (simp_all add: addFinalizer_def applyContainerDefaults_def applyPortDefaults_def
      applyStateDefaults_def applyHealthDefaults_def applySchedulingDefaults_def Let_def
      HasPortPolicy_def split: list.splits)

lemma ApplyDefaults_twice:
  "ApplyDefaults (ApplyDefaults gs) =
     (ApplyDefaults gs)\<lparr>ObjectMetaOf := (ObjectMetaOf (ApplyDefaults gs))\<lparr>Finalizers :=
        Finalizers (ObjectMetaOf (ApplyDefaults gs)) @ [GroupName]\<rparr>\<rparr>"
proof -
  have "ApplyDefaults (ApplyDefaults gs) =
      addFinalizer (applySchedulingDefaults (applyHealthDefaults (applyStateDefaults
        (applyPortDefaults (applyContainerDefaults (ApplyDefaults gs))))))"
    by (simp only: ApplyDefaults_alt [of "ApplyDefaults gs"] finalizer_commutes)
  also have "\<dots> = addFinalizer (ApplyDefaults gs)"
    by (simp only: fix_container fix_ports fix_state fix_health fix_scheduling)
  finally show ?thesis by (simp only: addFinalizer_def)
qed

text \<open>
  Claim C7 (the code departs from it). A second \<open>ApplyDefaults\<close> is not a no-op: it
  appends the group name to the finalizers once more. On the zero GameServer the first
  application leaves one finalizer and the second leaves two. By \<open>ApplyDefaults_twice\<close>
  the finalizer list is the only field the second application changes.
\<close>

theorem ApplyDefaults_second_application:
  "Finalizers (ObjectMetaOf (ApplyDefaults emptyGameServer)) = [GroupName] \<and>
   Finalizers (ObjectMetaOf (ApplyDefaults (ApplyDefaults emptyGameServer))) = [GroupName, GroupName] \<and>
   ApplyDefaults (ApplyDefaults emptyGameServer) \<noteq> ApplyDefaults emptyGameServer"
proof -
  have one: "Finalizers (ObjectMetaOf (ApplyDefaults emptyGameServer)) = [GroupName]"
    by (simp add: ApplyDefaults_alt defaults_sel addFinalizer_def emptyGameServer_def emptyObjectMeta_def)
  have two: "Finalizers (ObjectMetaOf (ApplyDefaults (ApplyDefaults emptyGameServer))) = [GroupName, GroupName]"
    by (simp add: ApplyDefaults_twice [of emptyGameServer] one)
  from one two have "Finalizers (ObjectMetaOf (ApplyDefaults (ApplyDefaults emptyGameServer)))
      \<noteq> Finalizers (ObjectMetaOf (ApplyDefaults emptyGameServer))"
    by simp
  then have "ApplyDefaults (ApplyDefaults emptyGameServer) \<noteq> ApplyDefaults emptyGameServer"
    by auto
  with one two show ?thesis by blast
qed

lemma portCauses_acc:
  "portCauses ps cs = cs @ map hostPortCause (filter (\<lambda>p. HostPort p > 0 \<and> PortPolicyOf p = Dynamic) ps)"
  by (induction ps arbitrary: cs) auto

lemma findContainer_error:
  "(snd (snd (findContainer i cs name)) = None) = (\<exists>c \<in> set cs. ContainerName c = name)"
  by (induction cs arbitrary: i) auto

lemma findContainer_found:
  "\<exists>c \<in> set cs. ContainerName c = name \<Longrightarrow>
   \<exists>k < length cs. findContainer i cs name = (i + int k, cs ! k, None) \<and> ContainerName (cs ! k) = name"
proof (induction cs arbitrary: i)
  case Nil
  then show ?case by simp
next
  case (Cons c cs)
  show ?case
  proof (cases "ContainerName c = name")
    case True
    then have "findContainer i (c # cs) name = (i + int 0, (c # cs) ! 0, None) \<and> ContainerName ((c # cs) ! 0) = name"
      by simp
    then show ?thesis by blast
  next
    case False
    with Cons.prems have "\<exists>c \<in> set cs. ContainerName c = name" by simp
    from Cons.IH [OF this, of "i + 1"] obtain k where
      k: "k < length cs" "findContainer (i + 1) cs name = (i + 1 + int k, cs ! k, None)"
        "ContainerName (cs ! k) = name" by blast
    with False have "Suc k < length (c # cs) \<and>
        findContainer i (c # cs) name = (i + int (Suc k), (c # cs) ! Suc k, None) \<and>
        ContainerName ((c # cs) ! Suc k) = name"
      by simp
    then show ?thesis by blast
  qed
qed

lemma Validate_snd:
  "snd (Validate gs) =
     (if length (SpecContainer (Spec gs)) = 0 \<and>
         length (Containers (TemplateSpec (Template (Spec gs)))) > 1
      then [\<lparr>CauseType = CauseTypeFieldValueInvalid, Field = ''container'',
              Message = ''Container is required when using multiple containers in the pod template''\<rparr>]
      else []) @
     map hostPortCause (filter (\<lambda>p. HostPort p > 0 \<and> PortPolicyOf p = Dynamic) (Ports (Spec gs))) @
     (case snd (snd (FindGameServerContainer gs)) of
        Some err \<Rightarrow> [\<lparr>CauseType = CauseTypeFieldValueInvalid, Field = ''container'', Message = err\<rparr>]
      | None \<Rightarrow> [])"
proof -
  obtain i c e where f: "FindGameServerContainer gs = (i, c, e)"
    by (cases "FindGameServerContainer gs") auto
  show ?thesis
    by (cases e) (simp_all add: Validate_def Let_def f portCauses_acc)
qed

lemma Validate_fst: "fst (Validate gs) = (snd (Validate gs) = [])"
  by (simp add: Validate_def Let_def)

text \<open>
  Apart from the finalizers, a second \<open>ApplyDefaults\<close> changes nothing: the type
  metadata, the spec (container, ports, health, scheduling, template), the status and the
  rest of the object metadata are as the first application left them.
\<close>

theorem ApplyDefaults_idempotent_but_finalizers:
  "ApplyDefaults (ApplyDefaults gs) =
     (ApplyDefaults gs)\<lparr>ObjectMetaOf := (ObjectMetaOf (ApplyDefaults gs))\<lparr>Finalizers :=
        Finalizers (ObjectMetaOf (ApplyDefaults (ApplyDefaults gs)))\<rparr>\<rparr>"
proof -
  have "Finalizers (ObjectMetaOf (ApplyDefaults (ApplyDefaults gs))) =
      Finalizers (ObjectMetaOf (ApplyDefaults gs)) @ [GroupName]"
    by (subst ApplyDefaults_twice) simp
  then show ?thesis
    using ApplyDefaults_twice [of gs] by simp
qed

text \<open>
  Claim C8. \<open>Validate\<close> returns \<open>ok = false\<close> with a cause whose field is
  \<open><port name>.hostPort\<close> for every dynamic port with a positive host port, and with a
  cause whose field is \<open>container\<close> when \<open>Spec.Container\<close> is empty and the template
  has more than one container. When no port breaks the rule and the container reference is
  valid (it is not an empty name among several containers, and it names a container of the
  template), the result is \<open>ok = true\<close> with no cause.
\<close>

theorem Validate_causes:
  "(\<forall>p \<in> set (Ports (Spec gs)). PortPolicyOf p = Dynamic \<and> HostPort p > 0 \<longrightarrow>
      \<not> fst (Validate gs) \<and> (\<exists>c \<in> set (snd (Validate gs)). Field c = PortName p @ ''.hostPort'')) \<and>
   (SpecContainer (Spec gs) = [] \<and> length (Containers (TemplateSpec (Template (Spec gs)))) > 1 \<longrightarrow>
      \<not> fst (Validate gs) \<and> (\<exists>c \<in> set (snd (Validate gs)). Field c = ''container'')) \<and>
   ((\<forall>p \<in> set (Ports (Spec gs)). \<not> (PortPolicyOf p = Dynamic \<and> HostPort p > 0)) \<and>
    \<not> (SpecContainer (Spec gs) = [] \<and> length (Containers (TemplateSpec (Template (Spec gs)))) > 1) \<and>
    (\<exists>c \<in> set (Containers (TemplateSpec (Template (Spec gs)))). ContainerName c = SpecContainer (Spec gs))
    \<longrightarrow> Validate gs = (True, []))"
proof (intro conjI ballI impI)
  fix p
  assume p: "p \<in> set (Ports (Spec gs))" and v: "PortPolicyOf p = Dynamic \<and> HostPort p > 0"
  have "hostPortCause p \<in> set (snd (Validate gs))"
    using p v by (simp add: Validate_snd)
  moreover have "Field (hostPortCause p) = PortName p @ ''.hostPort''"
    by (simp add: hostPortCause_def)
  ultimately show e: "\<exists>c \<in> set (snd (Validate gs)). Field c = PortName p @ ''.hostPort''"
    by blast
  then have "snd (Validate gs) \<noteq> []" by auto
  then show "\<not> fst (Validate gs)" by (simp add: Validate_fst)
next
  assume c: "SpecContainer (Spec gs) = [] \<and> length (Containers (TemplateSpec (Template (Spec gs)))) > 1"
  then show "\<exists>c \<in> set (snd (Validate gs)). Field c = ''container''"
    by (simp add: Validate_snd)
  then have "snd (Validate gs) \<noteq> []" by auto
  then show "\<not> fst (Validate gs)" by (simp add: Validate_fst)
next
  assume a: "(\<forall>p \<in> set (Ports (Spec gs)). \<not> (PortPolicyOf p = Dynamic \<and> HostPort p > 0)) \<and>
    \<not> (SpecContainer (Spec gs) = [] \<and> length (Containers (TemplateSpec (Template (Spec gs)))) > 1) \<and>
    (\<exists>c \<in> set (Containers (TemplateSpec (Template (Spec gs)))). ContainerName c = SpecContainer (Spec gs))"
  have f: "filter (\<lambda>p. HostPort p > 0 \<and> PortPolicyOf p = Dynamic) (Ports (Spec gs)) = []"
    using a by (auto simp add: filter_empty_conv)
  have e: "snd (snd (FindGameServerContainer gs)) = None"
    using a by (simp add: FindGameServerContainer_def findContainer_error)
  have "snd (Validate gs) = []"
    using a by (simp add: Validate_snd f e)
  then show "Validate gs = (True, [])"
    using Validate_fst [of gs] by (cases "Validate gs") simp
qed

theorem Validate_causes_witness:
  "\<lparr>PortName = ''main'', PortPolicyOf = Dynamic, ContainerPortOf = 0, HostPort = 5001, Protocol = []\<rparr>
     \<in> set (Ports (Spec invalidGameServer)) \<and>
   SpecContainer (Spec invalidGameServer) = [] \<and>
   length (Containers (TemplateSpec (Template (Spec invalidGameServer)))) > 1 \<and>
   \<not> fst (Validate invalidGameServer) \<and>
   (\<exists>c \<in> set (snd (Validate invalidGameServer)). Field c = ''main.hostPort'') \<and>
   (\<exists>c \<in> set (snd (Validate invalidGameServer)). Field c = ''container'') \<and>
   list_all (\<lambda>p. \<not> (PortPolicyOf p = Dynamic \<and> HostPort p > 0)) (Ports (Spec (ApplyDefaults podFixture))) \<and>
   (\<exists>c \<in> set (Containers (TemplateSpec (Template (Spec (ApplyDefaults podFixture))))).
      ContainerName c = SpecContainer (Spec (ApplyDefaults podFixture))) \<and>
   Validate (ApplyDefaults podFixture) = (True, [])"
proof -
  let ?p = "\<lparr>PortName = ''main'', PortPolicyOf = Dynamic, ContainerPortOf = 0, HostPort = 5001, Protocol = []\<rparr>"
  have p: "?p \<in> set (Ports (Spec invalidGameServer))"
    and c: "SpecContainer (Spec invalidGameServer) = []"
    and n: "length (Containers (TemplateSpec (Template (Spec invalidGameServer)))) > 1"
    by (simp_all add: fixture_defs)
  have ports: "Ports (Spec (ApplyDefaults podFixture)) =
      [\<lparr>PortName = [], PortPolicyOf = Static, ContainerPortOf = 7777, HostPort = 9999, Protocol = ''UDP''\<rparr>]"
    by (simp add: ApplyDefaults_alt defaults_sel fixture_defs portDefaults_def Static_def)
  have cs: "Containers (TemplateSpec (Template (Spec (ApplyDefaults podFixture)))) =
      [\<lparr>ContainerName = ''container'', Image = ''container/image'', ContainerPorts = []\<rparr>]"
    by (simp add: ApplyDefaults_alt defaults_sel fixture_defs)
  have sc: "SpecContainer (Spec (ApplyDefaults podFixture)) = ''container''"
    by (simp add: ApplyDefaults_alt defaults_sel fixture_defs)
  have a: "list_all (\<lambda>p. \<not> (PortPolicyOf p = Dynamic \<and> HostPort p > 0)) (Ports (Spec (ApplyDefaults podFixture)))"
    by (simp add: ports Static_def Dynamic_def)
  have e: "\<exists>c \<in> set (Containers (TemplateSpec (Template (Spec (ApplyDefaults podFixture))))).
      ContainerName c = SpecContainer (Spec (ApplyDefaults podFixture))"
    by (simp add: cs sc)
  have m: "PortName ?p @ ''.hostPort'' = ''main.hostPort''" and d: "PortPolicyOf ?p = Dynamic \<and> HostPort ?p > 0"
    by simp_all
  from Validate_causes [of invalidGameServer] p c n m d
  have bad: "\<not> fst (Validate invalidGameServer) \<and>
      (\<exists>c \<in> set (snd (Validate invalidGameServer)). Field c = ''main.hostPort'') \<and>
      (\<exists>c \<in> set (snd (Validate invalidGameServer)). Field c = ''container'')"
    by metis
  from Validate_causes [of "ApplyDefaults podFixture"] a e sc
  have good: "Validate (ApplyDefaults podFixture) = (True, [])"
    by (simp add: list_all_iff)
  from p c n bad a e good show ?thesis by blast
qed

lemma appendPorts_name: "ContainerName (appendPorts ps c) = ContainerName c"
  by (induction ps arbitrary: c) auto

lemma podObjectMeta_fst:
  "fst (podObjectMeta version gs pod) =
     gs\<lparr>ObjectMetaOf := (ObjectMetaOf gs)\<lparr>Annotations :=
        Some ((case Annotations (ObjectMetaOf gs) of None \<Rightarrow> Map.empty | Some m \<Rightarrow> m)
               (VersionAnnotation \<mapsto> version))\<rparr>\<rparr>"
  by (simp add: podObjectMeta_def Let_def mapSet_def)

lemma podObjectMeta_spec: "PodSpecOf (snd (podObjectMeta version gs pod)) = PodSpecOf pod"
  by (simp add: podObjectMeta_def Let_def)

lemma podScheduling_containers:
  "Containers (PodSpecOf (podScheduling gs pod)) = Containers (PodSpecOf pod)"
  by (simp add: podScheduling_def Let_def)

text \<open>
  Claim C10. \<open>Pod\<close> changes its receiver: the GameServer it leaves is the one it was given
  with the version annotation written into its own annotations, a map being made when
  there was none; every other field is as it was.
\<close>

theorem Pod_writes_version_annotation:
  "fst (Pod version gs sidecars) =
     gs\<lparr>ObjectMetaOf := (ObjectMetaOf gs)\<lparr>Annotations :=
        Some ((case Annotations (ObjectMetaOf gs) of None \<Rightarrow> Map.empty | Some m \<Rightarrow> m)
               (VersionAnnotation \<mapsto> version))\<rparr>\<rparr>"
proof -
  obtain gs1 pod1 where pm: "podObjectMeta version gs
      \<lparr>PodObjectMeta = TemplateObjectMeta (Template (Spec gs)),
       PodSpecOf = TemplateSpec (Template (Spec gs))\<rparr> = (gs1, pod1)"
    by (cases "podObjectMeta version gs
      \<lparr>PodObjectMeta = TemplateObjectMeta (Template (Spec gs)),
       PodSpecOf = TemplateSpec (Template (Spec gs))\<rparr>") blast
  have "fst (Pod version gs sidecars) = gs1"
    by (simp add: Pod_def pm Let_def split: prod.splits option.splits)
  moreover have "gs1 = fst (podObjectMeta version gs
      \<lparr>PodObjectMeta = TemplateObjectMeta (Template (Spec gs)),
       PodSpecOf = TemplateSpec (Template (Spec gs))\<rparr>)"
    by (simp add: pm)
  ultimately show ?thesis by (simp only: podObjectMeta_fst)
qed

text \<open>
  Claim C9. When \<open>Spec.Container\<close> names a container of the template, \<open>Pod\<close> returns
  without error a pod with as many containers as the template has plus the sidecars; the
  game-server container (with the GameServer's ports appended) is at the index it has in the
  template, and the sidecars follow all the template's containers.
\<close>

theorem Pod_containers:
  assumes "\<exists>c \<in> set (Containers (TemplateSpec (Template (Spec gs)))). ContainerName c = SpecContainer (Spec gs)"
  shows "\<exists>i gs' pod.
    Pod version gs sidecars = (gs', pod, None) \<and>
    i < length (Containers (TemplateSpec (Template (Spec gs)))) \<and>
    FindGameServerContainer gs = (int i, Containers (TemplateSpec (Template (Spec gs))) ! i, None) \<and>
    length (Containers (PodSpecOf pod)) =
      length (Containers (TemplateSpec (Template (Spec gs)))) + length sidecars \<and>
    Containers (PodSpecOf pod) ! i =
      appendPorts (Ports (Spec gs)) (Containers (TemplateSpec (Template (Spec gs))) ! i) \<and>
    ContainerName (Containers (PodSpecOf pod) ! i) = SpecContainer (Spec gs) \<and>
    take (length (Containers (TemplateSpec (Template (Spec gs))))) (Containers (PodSpecOf pod)) =
      (Containers (TemplateSpec (Template (Spec gs))))
        [i := appendPorts (Ports (Spec gs)) (Containers (TemplateSpec (Template (Spec gs))) ! i)] \<and>
    drop (length (Containers (TemplateSpec (Template (Spec gs))))) (Containers (PodSpecOf pod)) = sidecars"
proof -
  let ?cs = "Containers (TemplateSpec (Template (Spec gs)))"
  let ?pod0 = "\<lparr>PodObjectMeta = TemplateObjectMeta (Template (Spec gs)),
       PodSpecOf = TemplateSpec (Template (Spec gs))\<rparr>"
  obtain gs1 pod1 where pm: "podObjectMeta version gs ?pod0 = (gs1, pod1)"
    by (cases "podObjectMeta version gs ?pod0") blast
  have gs1: "Spec gs1 = Spec gs"
    using podObjectMeta_fst [of version gs ?pod0] by (simp add: pm)
  have sp1: "Containers (PodSpecOf pod1) = ?cs"
    using podObjectMeta_spec [of version gs ?pod0] by (simp add: pm)
  from findContainer_found [OF assms, of 0] obtain i where
    i: "i < length ?cs" "findContainer 0 ?cs (SpecContainer (Spec gs)) = (int i, ?cs ! i, None)"
      "ContainerName (?cs ! i) = SpecContainer (Spec gs)"
    by auto
  have f: "FindGameServerContainer gs = (int i, ?cs ! i, None)"
    and f1: "FindGameServerContainer gs1 = (int i, ?cs ! i, None)"
    using i(2) by (simp_all add: FindGameServerContainer_def gs1)
  obtain gs' pod where r: "Pod version gs sidecars = (gs', pod, None)"
    and c: "Containers (PodSpecOf pod) = ?cs[i := appendPorts (Ports (Spec gs)) (?cs ! i)] @ sidecars"
    by (simp add: Pod_def pm f1 gs1 sp1 Let_def podScheduling_containers)
  have "length (Containers (PodSpecOf pod)) = length ?cs + length sidecars"
    by (simp add: c)
  moreover have "Containers (PodSpecOf pod) ! i = appendPorts (Ports (Spec gs)) (?cs ! i)"
    using i(1) by (simp add: c nth_append)
  moreover have "ContainerName (Containers (PodSpecOf pod) ! i) = SpecContainer (Spec gs)"
    using i(1,3) by (simp add: c nth_append appendPorts_name)
  moreover have "take (length ?cs) (Containers (PodSpecOf pod)) = ?cs[i := appendPorts (Ports (Spec gs)) (?cs ! i)]"
    by (simp add: c)
  moreover have "drop (length ?cs) (Containers (PodSpecOf pod)) = sidecars"
    by (simp add: c)
  ultimately show ?thesis using r i(1) f by blast
qed

theorem Pod_containers_witness:
  "(\<exists>c \<in> set (Containers (TemplateSpec (Template (Spec (ApplyDefaults podFixture))))).
      ContainerName c = SpecContainer (Spec (ApplyDefaults podFixture))) \<and>
   snd (snd (Pod ''0.9.0'' (ApplyDefaults podFixture) [sidecarFixture])) = None \<and>
   map ContainerName (Containers (PodSpecOf (fst (snd (Pod ''0.9.0'' (ApplyDefaults podFixture) [sidecarFixture])))))
     = [''container'', ''sidecar'']"
proof -
  have cs: "Containers (TemplateSpec (Template (Spec (ApplyDefaults podFixture)))) =
      [\<lparr>ContainerName = ''container'', Image = ''container/image'', ContainerPorts = []\<rparr>]"
    by (simp add: ApplyDefaults_alt defaults_sel fixture_defs)
  have sc: "SpecContainer (Spec (ApplyDefaults podFixture)) = ''container''"
    by (simp add: ApplyDefaults_alt defaults_sel fixture_defs)
  have e: "\<exists>c \<in> set (Containers (TemplateSpec (Template (Spec (ApplyDefaults podFixture))))).
      ContainerName c = SpecContainer (Spec (ApplyDefaults podFixture))"
    by (simp add: cs sc)
  from Pod_containers [OF e, of "''0.9.0''" "[sidecarFixture]"] obtain i gs' pod where
    r: "Pod ''0.9.0'' (ApplyDefaults podFixture) [sidecarFixture] = (gs', pod, None)"
    and i: "i < length (Containers (TemplateSpec (Template (Spec (ApplyDefaults podFixture)))))"
    and l: "length (Containers (PodSpecOf pod)) =
      length (Containers (TemplateSpec (Template (Spec (ApplyDefaults podFixture))))) + length [sidecarFixture]"
    and n: "ContainerName (Containers (PodSpecOf pod) ! i) = SpecContainer (Spec (ApplyDefaults podFixture))"
    and d: "drop (length (Containers (TemplateSpec (Template (Spec (ApplyDefaults podFixture))))))
         (Containers (PodSpecOf pod)) = [sidecarFixture]"
    by blast
  from i have i0: "i = 0" by (simp add: cs)
  from l have "length (Containers (PodSpecOf pod)) = 2" by (simp add: cs)
  then obtain a b where ab: "Containers (PodSpecOf pod) = [a, b]"
    by (cases "Containers (PodSpecOf pod)"; simp) (metis Suc_length_conv length_0_conv)
  from n i0 ab sc have "ContainerName a = ''container''" by simp
  moreover from d ab have "b = sidecarFixture" by (simp add: cs)
  ultimately have "map ContainerName (Containers (PodSpecOf pod)) = [''container'', ''sidecar'']"
    by (simp add: ab sidecarFixture_def)
  with e r show ?thesis by simp
qed


section \<open>Properties of the port allocator\<close>

lemmas allocator_eval = Allocate_def allocate.simps fillPorts.simps newPortAllocation_def
  NewPortAllocator_def findOpenPorts_def CountPorts_def gsWithPorts_def emptyGameServer_def
  emptyObjectMeta_def assignAllocations_def takePort_def wrapInt32_def Dynamic_def Static_def
  DeAllocate_def portTaken_def takenCount_def heldBy_def heldCount_def holders_def

lemma freeOf_simps [simp]:
  "freeOf i [] = []"
  "freeOf i ((p, t) # es) = (if t then freeOf i es else (i, p) # freeOf i es)"
  by (simp_all add: freeOf_def)

lemma scanNode_eq:
  "scanNode amount i es ports =
     (if length ports < amount \<and> amount \<le> length ports + length (freeOf i es)
      then (ports @ take (amount - length ports) (freeOf i es), True)
      else (ports @ freeOf i es, False))"
proof (induction es arbitrary: ports)
  case Nil
  show ?case by simp
next
  case (Cons e es)
  obtain p t where e: "e = (p, t)" by (cases e)
  show ?case
  proof (cases t)
    case True
    with e Cons [of ports] show ?thesis by simp
  next
    case False
    show ?thesis
    proof (cases "Suc (length ports) = amount")
      case True
      then have "amount = Suc (length ports)" by simp
      then show ?thesis by (simp add: e False)
    next
      case ne: False
      have "scanNode amount i (e # es) ports = scanNode amount i es (ports @ [(i, p)])"
        using e False ne by simp
      also have "\<dots> = (if length (ports @ [(i, p)]) < amount \<and>
            amount \<le> length (ports @ [(i, p)]) + length (freeOf i es)
          then ((ports @ [(i, p)]) @ take (amount - length (ports @ [(i, p)])) (freeOf i es), True)
          else ((ports @ [(i, p)]) @ freeOf i es, False))"
        by (rule Cons)
      also have "\<dots> = (if length ports < amount \<and> amount \<le> length ports + length (freeOf i (e # es))
          then (ports @ take (amount - length ports) (freeOf i (e # es)), True)
          else (ports @ freeOf i (e # es), False))"
        using e False ne by (auto simp add: take_Cons' Suc_diff_Suc)
      finally show ?thesis .
    qed
  qed
qed

lemma scanNodes_eq:
  "scanNodes rangeOrder amount i ns ports =
     (if length ports < amount \<and> amount \<le> length ports + length (allFree rangeOrder i ns)
      then ports @ take (amount - length ports) (allFree rangeOrder i ns)
      else ports @ allFree rangeOrder i ns)"
proof (induction ns arbitrary: i ports)
  case Nil
  show ?case by simp
next
  case (Cons n ns)
  let ?f = "freeOf i (rangeOrder i n)"
  show ?case
  proof (cases "length ports < amount \<and> amount \<le> length ports + length ?f")
    case True
    then show ?thesis by (simp add: scanNode_eq)
  next
    case False
    have "scanNode amount i (rangeOrder i n) ports =
        (if length ports < amount \<and> amount \<le> length ports + length ?f
         then (ports @ take (amount - length ports) ?f, True) else (ports @ ?f, False))"
      by (rule scanNode_eq)
    with False have "scanNode amount i (rangeOrder i n) ports = (ports @ ?f, False)"
      by (simp only: if_False)
    then have "scanNodes rangeOrder amount i (n # ns) ports =
        scanNodes rangeOrder amount (i + 1) ns (ports @ ?f)"
      by simp
    also have "\<dots> = (if length (ports @ ?f) < amount \<and>
          amount \<le> length (ports @ ?f) + length (allFree rangeOrder (i + 1) ns)
        then (ports @ ?f) @ take (amount - length (ports @ ?f)) (allFree rangeOrder (i + 1) ns)
        else (ports @ ?f) @ allFree rangeOrder (i + 1) ns)"
      by (rule Cons)
    also have "\<dots> = (if length ports < amount \<and>
          amount \<le> length ports + length (allFree rangeOrder i (n # ns))
        then ports @ take (amount - length ports) (allFree rangeOrder i (n # ns))
        else ports @ allFree rangeOrder i (n # ns))"
      using False by (auto simp add: take_append)
    finally show ?thesis .
  qed
qed

lemma findOpenPorts_eq:
  "findOpenPorts rangeOrder pa amount =
     (if 0 < amount \<and> amount \<le> length (allFree rangeOrder 0 (portAllocations pa))
      then take amount (allFree rangeOrder 0 (portAllocations pa))
      else allFree rangeOrder 0 (portAllocations pa))"
  by (simp add: findOpenPorts_def scanNodes_eq)

lemma update_False_allFreeIn: "allFreeIn np \<Longrightarrow> allFreeIn (AList.update k False np)"
  by (induction np) (auto simp add: allFreeIn_def)

lemma fillPorts_partial:
  assumes "fillPorts i maxP p = Some n"
  shows "distinctKeys p \<and> allFreeIn p \<longrightarrow> distinctKeys n \<and> allFreeIn n"
proof (rule fillPorts.raw_induct
    [where P = "\<lambda>i maxP p n. distinctKeys p \<and> allFreeIn p \<longrightarrow> distinctKeys n \<and> allFreeIn n",
     OF _ assms], goal_cases)
  case (1 f i maxP p n)
  show ?case
  proof (cases "i \<le> maxP")
    case True
    with 1(2) have "f (wrapInt32 (i + 1)) maxP (AList.update i False p) = Some n" by simp
    from 1(1) [OF this] show ?thesis
      by (auto simp add: distinctKeys_def distinct_update update_False_allFreeIn)
  next
    case False
    with 1(2) show ?thesis by simp
  qed
qed

lemma newPortAllocation_fresh:
  "newPortAllocation pa = Some n \<Longrightarrow> distinctKeys n \<and> allFreeIn n"
  using fillPorts_partial [of "minPort pa" "maxPort pa" "[]" n]
  by (simp add: newPortAllocation_def distinctKeys_def allFreeIn_def)

lemma wrapInt32_id: "- (2 ^ 31) \<le> x \<Longrightarrow> x < 2 ^ 31 \<Longrightarrow> wrapInt32 x = x"
  by (simp add: wrapInt32_def)

lemma fillPorts_returns:
  assumes "- (2 ^ 31) \<le> i" and "maxP < 2 ^ 31 - 1"
  shows "fillPorts i maxP p = Some (fold (\<lambda>k. AList.update k False) [i..maxP] p)"
  using assms(1)
proof (induction "nat (maxP + 1 - i)" arbitrary: i p)
  case 0
  then have "\<not> i \<le> maxP" by simp
  then show ?case by (subst fillPorts.simps) simp
next
  case (Suc m)
  then have le: "i \<le> maxP" by simp
  have w: "wrapInt32 (i + 1) = i + 1"
    using le assms(2) Suc.prems by (intro wrapInt32_id) simp_all
  have m: "m = nat (maxP + 1 - (i + 1))" using Suc.hyps(2) by simp
  have "fillPorts i maxP p = fillPorts (i + 1) maxP (AList.update i False p)"
    using le w by (subst fillPorts.simps) simp
  also have "\<dots> = Some (fold (\<lambda>k. AList.update k False) [i + 1..maxP] (AList.update i False p))"
    using Suc.hyps(1) [OF m] Suc.prems by simp
  also have "\<dots> = Some (fold (\<lambda>k. AList.update k False) [i..maxP] p)"
    using le by (simp add: upto_rec1 [of i maxP])
  finally show ?case .
qed

lemma fold_update_fresh:
  "\<forall>k \<in> fst ` set p. k < i \<Longrightarrow>
   fold (\<lambda>k. AList.update k False) [i..maxP] p = p @ map (\<lambda>k. (k, False)) [i..maxP]"
proof (induction "nat (maxP + 1 - i)" arbitrary: i p)
  case 0
  then show ?case by simp
next
  case (Suc m)
  then have le: "i \<le> maxP" by simp
  have m: "m = nat (maxP + 1 - (i + 1))" using Suc.hyps(2) by simp
  have notin: "i \<notin> fst ` set p" using Suc.prems by auto
  have u: "AList.update i False p = p @ [(i, False)]"
    using notin by (induction p) auto
  have "\<forall>k \<in> fst ` set (p @ [(i, False)]). k < i + 1"
    using Suc.prems by auto
  from Suc.hyps(1) [OF m this] show ?case
    using le by (simp add: upto_rec1 [of i maxP] u)
qed

lemma newPortAllocation_returns:
  assumes "- (2 ^ 31) \<le> minPort pa" and "maxPort pa < 2 ^ 31 - 1"
  shows "newPortAllocation pa = Some (map (\<lambda>k. (k, False)) [minPort pa..maxPort pa])"
  using fillPorts_returns [OF assms, of "[]"] fold_update_fresh [of "[]" "minPort pa" "maxPort pa"]
  by (simp add: newPortAllocation_def)

lemma rangesOverMap_set: "rangesOverMap rangeOrder \<Longrightarrow> set (rangeOrder i np) = set np"
  unfolding rangesOverMap_def by (metis set_mset_mset)

lemma rangesOverMap_distinct:
  assumes "rangesOverMap rangeOrder" and "distinctKeys np"
  shows "distinctKeys (rangeOrder i np)"
proof -
  have "mset (map fst (rangeOrder i np)) = mset (map fst np)"
    using assms(1) by (simp add: rangesOverMap_def)
  then show ?thesis
    using assms(2) unfolding distinctKeys_def by (metis mset_eq_imp_distinct_iff)
qed

lemma rangesOverMap_free:
  assumes "rangesOverMap rangeOrder"
  shows "length (filter (\<lambda>e. \<not> snd e) (rangeOrder i np)) = length (filter (\<lambda>e. \<not> snd e) np)"
proof -
  have "mset (filter (\<lambda>e. \<not> snd e) (rangeOrder i np)) = mset (filter (\<lambda>e. \<not> snd e) np)"
    using assms by (simp add: rangesOverMap_def)
  then show ?thesis by (rule mset_eq_length)
qed

lemma rangesEachTime_nth: "rangesEachTime rangeOrders \<Longrightarrow> rangesOverMap (rangeOrders k)"
  by (simp add: rangesEachTime_def)

lemma rangesEachTime_Suc:
  "rangesEachTime rangeOrders \<Longrightarrow> rangesEachTime (\<lambda>k. rangeOrders (Suc k))"
  by (simp add: rangesEachTime_def)

lemma freeOf_set: "set (freeOf i np) = {(i, p) | p. (p, False) \<in> set np}"
  by (force simp add: freeOf_def)

lemma freeOf_distinct: "distinctKeys np \<Longrightarrow> distinct (freeOf i np)"
proof -
  assume d: "distinctKeys np"
  have "distinct (map fst (filter (\<lambda>e. \<not> snd e) np))"
    using d by (simp add: distinctKeys_def distinct_map_filter)
  then have "distinct (map (Pair i) (map fst (filter (\<lambda>e. \<not> snd e) np)))"
    by (simp add: distinct_map inj_on_def)
  then show ?thesis by (simp add: freeOf_def comp_def)
qed

lemma allFree_set:
  assumes "rangesOverMap rangeOrder"
  shows "a \<in> set (allFree rangeOrder i ns) \<Longrightarrow>
    i \<le> fst a \<and> fst a < i + length ns \<and> (snd a, False) \<in> set (ns ! (fst a - i))"
proof (induction ns arbitrary: i)
  case Nil
  then show ?case by simp
next
  case (Cons n ns)
  from Cons.prems have "a \<in> set (freeOf i (rangeOrder i n)) \<or> a \<in> set (allFree rangeOrder (i + 1) ns)"
    by simp
  then show ?case
  proof
    assume "a \<in> set (freeOf i (rangeOrder i n))"
    then show ?thesis
      using rangesOverMap_set [OF assms, of i n] by (auto simp add: freeOf_set)
  next
    assume "a \<in> set (allFree rangeOrder (i + 1) ns)"
    from Cons.IH [OF this] show ?thesis
      by (auto simp add: nth_Cons' Suc_diff_le)
  qed
qed

lemma allFree_distinct:
  assumes "rangesOverMap rangeOrder"
  shows "wfNodes ns \<Longrightarrow> distinct (allFree rangeOrder i ns)"
proof (induction ns arbitrary: i)
  case Nil
  show ?case by simp
next
  case (Cons n ns)
  have d: "distinct (freeOf i (rangeOrder i n))"
    using Cons.prems rangesOverMap_distinct [OF assms, of n i]
    by (simp add: wfNodes_def freeOf_distinct)
  have "set (freeOf i (rangeOrder i n)) \<inter> set (allFree rangeOrder (i + 1) ns) = {}"
    using allFree_set [OF assms, of _ "i + 1" ns] by (fastforce simp add: freeOf_set)
  with d Cons show ?case by (simp add: wfNodes_def)
qed

lemma allFree_freeAt:
  assumes "rangesOverMap rangeOrder" and "wfNodes ns" and "a \<in> set (allFree rangeOrder 0 ns)"
  shows "freeAt ns a"
proof -
  from allFree_set [OF assms(1,3)] have l: "fst a < length ns" and m: "(snd a, False) \<in> set (ns ! fst a)"
    by simp_all
  from l assms(2) have "distinct (map fst (ns ! fst a))"
    by (simp add: wfNodes_def list_all_length distinctKeys_def)
  with m have "map_of (ns ! fst a) (snd a) = Some False" by simp
  with l show ?thesis by (simp add: freeAt_def)
qed

lemma allFree_append:
  "allFree rangeOrder i (ns @ ms) = allFree rangeOrder i ns @ allFree rangeOrder (i + length ns) ms"
  by (induction ns arbitrary: i) auto

lemma findOpenPorts_subset:
  "set (findOpenPorts rangeOrder pa amount) \<subseteq> set (allFree rangeOrder 0 (portAllocations pa))"
  by (auto simp add: findOpenPorts_eq dest: in_set_takeD)

lemma findOpenPorts_distinct:
  "rangesOverMap rangeOrder \<Longrightarrow> wfNodes (portAllocations pa) \<Longrightarrow>
   distinct (findOpenPorts rangeOrder pa amount)"
  using allFree_distinct [of rangeOrder "portAllocations pa" 0]
  by (simp add: findOpenPorts_eq)

lemma takenCount_Cons:
  "takenCount (np # nodes) q = (if portTaken np q then 1 else 0) + takenCount nodes q"
  by (simp add: takenCount_def)

lemma takenCount_Nil [simp]: "takenCount [] q = 0"
  by (simp add: takenCount_def)

lemma takenCount_update:
  "i < length nodes \<Longrightarrow>
   takenCount (nodes[i := np]) q + (if portTaken (nodes ! i) q then 1 else 0) =
   takenCount nodes q + (if portTaken np q then 1 else 0)"
proof (induction nodes arbitrary: i)
  case Nil
  then show ?case by simp
next
  case (Cons n nodes)
  show ?case
  proof (cases i)
    case 0
    then show ?thesis by (simp add: takenCount_Cons)
  next
    case (Suc j)
    with Cons.prems have "j < length nodes" by simp
    from Cons.IH [OF this] Suc show ?thesis by (simp add: takenCount_Cons)
  qed
qed

lemma portTaken_update: "portTaken (AList.update k v np) q = (if q = k then v else portTaken np q)"
  by (simp add: portTaken_def update_conv')

lemma takePort_count:
  assumes "freeAt nodes a"
  shows "takenCount (takePort a nodes) q = takenCount nodes q + (if snd a = q then 1 else 0)"
proof -
  from assms have l: "fst a < length nodes" and f: "\<not> portTaken (nodes ! fst a) (snd a)"
    by (simp_all add: freeAt_def portTaken_def)
  from takenCount_update [OF l, of "AList.update (snd a) True (nodes ! fst a)" q] f
  show ?thesis by (auto simp add: takePort_def portTaken_update split: if_splits)
qed

lemma takePort_wf: "wfNodes nodes \<Longrightarrow> wfNodes (takePort a nodes)"
proof -
  assume w: "wfNodes nodes"
  show ?thesis
  proof (cases "fst a < length nodes")
    case True
    then have "distinctKeys (nodes ! fst a)"
      using w by (simp add: wfNodes_def list_all_length)
    then have "distinctKeys (AList.update (snd a) True (nodes ! fst a))"
      by (simp add: distinctKeys_def distinct_update)
    with w show ?thesis
      by (auto simp add: wfNodes_def takePort_def list_all_iff dest: set_update_subset_insert [THEN subsetD])
  next
    case False
    with w show ?thesis by (simp add: takePort_def list_update_beyond)
  qed
qed

lemma takePort_length [simp]: "length (takePort a nodes) = length nodes"
  by (simp add: takePort_def)

lemma takePort_keeps_free:
  assumes "freeAt nodes b" and "b \<noteq> a"
  shows "freeAt (takePort a nodes) b"
proof (cases "fst b = fst a")
  case True
  with assms(2) have "snd b \<noteq> snd a" by (auto simp add: prod_eq_iff)
  with assms(1) True show ?thesis
    by (simp add: freeAt_def takePort_def update_conv')
next
  case False
  with assms(1) show ?thesis by (simp add: freeAt_def takePort_def)
qed

lemma countPolicy_eq: "countPolicy ps policy c = c + length (filter (\<lambda>p. PortPolicyOf p = policy) ps)"
  by (induction ps arbitrary: c) auto

lemma assignPorts_ok:
  assumes "wfNodes nodes" and "list_all (freeAt nodes) allocations" and "distinct allocations"
    and "length (filter (\<lambda>p. PortPolicyOf p = Dynamic) ps) \<le> length allocations"
  shows "\<exists>ps' nodes'. assignPorts ps allocations nodes = Inr (ps', nodes') \<and>
    wfNodes nodes' \<and> length nodes' = length nodes \<and>
    (\<forall>q. takenCount nodes' q = takenCount nodes q + dynHeld ps' q) \<and>
    map PortPolicyOf ps' = map PortPolicyOf ps \<and>
    list_all2 (\<lambda>p p'. if PortPolicyOf p = Dynamic then HostPort p' \<in> snd ` set allocations
                       else p' = p) ps ps'"
  using assms
proof (induction ps arbitrary: allocations nodes)
  case Nil
  then show ?case by (simp add: dynHeld_def)
next
  case (Cons p ps)
  show ?case
  proof (cases "PortPolicyOf p = Dynamic")
    case True
    with Cons.prems(4) obtain a rest where al: "allocations = a # rest"
      by (cases allocations) auto
    have fa: "freeAt nodes a" using Cons.prems(2) al by simp
    have "list_all (freeAt (takePort a nodes)) rest"
      using Cons.prems(2,3) al takePort_keeps_free [of nodes _ a]
      by (auto simp add: list_all_iff)
    moreover have "distinct rest" using Cons.prems(3) al by simp
    moreover have "length (filter (\<lambda>p. PortPolicyOf p = Dynamic) ps) \<le> length rest"
      using Cons.prems(4) al True by simp
    ultimately obtain ps' nodes' where r: "assignPorts ps rest (takePort a nodes) = Inr (ps', nodes')"
      and w: "wfNodes nodes'" and l: "length nodes' = length (takePort a nodes)"
      and c: "\<forall>q. takenCount nodes' q = takenCount (takePort a nodes) q + dynHeld ps' q"
      and pp: "map PortPolicyOf ps' = map PortPolicyOf ps"
      and h: "list_all2 (\<lambda>p p'. if PortPolicyOf p = Dynamic then HostPort p' \<in> snd ` set rest
                       else p' = p) ps ps'"
      using Cons.IH [of "takePort a nodes" rest] takePort_wf [OF Cons.prems(1), of a] by blast
    have "assignPorts (p # ps) allocations nodes = Inr (p\<lparr>HostPort := snd a\<rparr> # ps', nodes')"
      using True al r by simp
    moreover have "\<forall>q. takenCount nodes' q = takenCount nodes q + dynHeld (p\<lparr>HostPort := snd a\<rparr> # ps') q"
      using c takePort_count [OF fa] True by (simp add: dynHeld_def)
    moreover have "list_all2 (\<lambda>p p'. if PortPolicyOf p = Dynamic then HostPort p' \<in> snd ` set allocations
                       else p' = p) (p # ps) (p\<lparr>HostPort := snd a\<rparr> # ps')"
      using h True al by (auto elim!: list_all2_mono split: if_splits)
    ultimately show ?thesis using w l pp al by simp
  next
    case False
    with Cons.prems(4) have "length (filter (\<lambda>p. PortPolicyOf p = Dynamic) ps) \<le> length allocations"
      by simp
    from Cons.IH [OF Cons.prems(1,2,3) this] obtain ps' nodes' where
      r: "assignPorts ps allocations nodes = Inr (ps', nodes')"
      and w: "wfNodes nodes'" and l: "length nodes' = length nodes"
      and c: "\<forall>q. takenCount nodes' q = takenCount nodes q + dynHeld ps' q"
      and pp: "map PortPolicyOf ps' = map PortPolicyOf ps"
      and h: "list_all2 (\<lambda>p p'. if PortPolicyOf p = Dynamic then HostPort p' \<in> snd ` set allocations
                       else p' = p) ps ps'"
      by blast
    have "assignPorts (p # ps) allocations nodes = Inr (p # ps', nodes')"
      using False r by simp
    moreover have "\<forall>q. takenCount nodes' q = takenCount nodes q + dynHeld (p # ps') q"
      using c False by (simp add: dynHeld_def)
    ultimately show ?thesis using w l pp h False by simp
  qed
qed

lemma heldBy_dynHeld: "heldBy gs q = dynHeld (Ports (Spec gs)) q"
  by (simp add: heldBy_def dynHeld_def)

lemma allFreeIn_not_taken: "allFreeIn np \<Longrightarrow> \<not> portTaken np q"
proof -
  assume a: "allFreeIn np"
  show ?thesis
  proof (cases "map_of np q")
    case None
    then show ?thesis by (simp add: portTaken_def)
  next
    case (Some v)
    then have "(q, v) \<in> set np" by (rule map_of_SomeD)
    with a have "\<not> v" by (auto simp add: allFreeIn_def list_all_iff)
    with Some show ?thesis by (simp add: portTaken_def)
  qed
qed

lemma takenCount_append: "takenCount (nodes @ ms) q = takenCount nodes q + takenCount ms q"
  by (simp add: takenCount_def)

lemma CountPorts_eq:
  "CountPorts gs Dynamic = length (filter (\<lambda>p. PortPolicyOf p = Dynamic) (Ports (Spec gs)))"
  by (simp add: CountPorts_def countPolicy_eq)

lemma assignAllocations_ok:
  assumes ro: "rangesOverMap rangeOrder" and wf: "wfNodes (portAllocations pa)"
    and len: "length (findOpenPorts rangeOrder pa (CountPorts gs Dynamic)) = CountPorts gs Dynamic"
  shows "allocateResult pa gs
    (assignAllocations pa gs (findOpenPorts rangeOrder pa (CountPorts gs Dynamic)))"
proof -
  let ?al = "findOpenPorts rangeOrder pa (CountPorts gs Dynamic)"
  have fr: "list_all (freeAt (portAllocations pa)) ?al"
    using findOpenPorts_subset [of rangeOrder pa "CountPorts gs Dynamic"]
      allFree_freeAt [OF ro wf]
    by (auto simp add: list_all_iff)
  have d: "distinct ?al" using ro wf by (rule findOpenPorts_distinct)
  have l: "length (filter (\<lambda>p. PortPolicyOf p = Dynamic) (Ports (Spec gs))) \<le> length ?al"
    using len by (simp add: CountPorts_eq)
  from assignPorts_ok [OF wf fr d l] obtain ps' nodes' where
    r: "assignPorts (Ports (Spec gs)) ?al (portAllocations pa) = Inr (ps', nodes')"
    and w: "wfNodes nodes'" and ln: "length nodes' = length (portAllocations pa)"
    and c: "\<forall>q. takenCount nodes' q = takenCount (portAllocations pa) q + dynHeld ps' q"
    and pp: "map PortPolicyOf ps' = map PortPolicyOf (Ports (Spec gs))"
    and h: "list_all2 (\<lambda>p p'. if PortPolicyOf p = Dynamic then HostPort p' \<in> snd ` set ?al
                       else p' = p) (Ports (Spec gs)) ps'"
    by blast
  have h': "list_all2 (\<lambda>p p'. PortPolicyOf p = Dynamic \<or> p' = p) (Ports (Spec gs)) ps'"
    using h by (rule list_all2_mono) (auto split: if_splits)
  show ?thesis
    unfolding allocateResult_def
    using r w ln c pp h' by (simp add: assignAllocations_def heldBy_dynHeld)
qed

lemma allocateResult_retry:
  assumes "allocateResult (pa\<lparr>portAllocations := portAllocations pa @ [n]\<rparr>) gs r"
    and "allFreeIn n"
  shows "allocateResult pa gs r"
proof -
  have "takenCount (portAllocations pa @ [n]) q = takenCount (portAllocations pa) q" for q
    using allFreeIn_not_taken [OF assms(2), of q] by (simp add: takenCount_append takenCount_Cons)
  with assms(1) show ?thesis
    unfolding allocateResult_def by auto
qed

lemma allocate_result:
  assumes "allocate rangeOrders pa gs = Some r"
  shows "rangesEachTime rangeOrders \<and> wfNodes (portAllocations pa) \<longrightarrow> allocateResult pa gs r"
proof (rule allocate.raw_induct
    [where P = "\<lambda>rangeOrders pa gs r.
       rangesEachTime rangeOrders \<and> wfNodes (portAllocations pa) \<longrightarrow> allocateResult pa gs r",
     OF _ assms], goal_cases)
  case (1 f rangeOrders pa gs r)
  show ?case
  proof (intro impI, elim conjE)
    assume ro: "rangesEachTime rangeOrders" and wf: "wfNodes (portAllocations pa)"
    have ro0: "rangesOverMap (rangeOrders 0)" using ro by (rule rangesEachTime_nth)
    show "allocateResult pa gs r"
    proof (cases "length (findOpenPorts (rangeOrders 0) pa (CountPorts gs Dynamic)) =
        CountPorts gs Dynamic")
      case True
      with 1(2) have
        "r = assignAllocations pa gs (findOpenPorts (rangeOrders 0) pa (CountPorts gs Dynamic))"
        by simp
      with assignAllocations_ok [OF ro0 wf True] show ?thesis by simp
    next
      case False
      with 1(2) obtain n where n: "newPortAllocation pa = Some n"
        and rec: "f (\<lambda>k. rangeOrders (Suc k))
          (pa\<lparr>portAllocations := portAllocations pa @ [n]\<rparr>) gs = Some r"
        by (auto split: option.splits)
      from newPortAllocation_fresh [OF n] have dn: "distinctKeys n" and fn: "allFreeIn n" by simp_all
      have "wfNodes (portAllocations (pa\<lparr>portAllocations := portAllocations pa @ [n]\<rparr>))"
        using wf dn by (simp add: wfNodes_def)
      with 1(1) [OF rec] rangesEachTime_Suc [OF ro]
      have "allocateResult (pa\<lparr>portAllocations := portAllocations pa @ [n]\<rparr>) gs r" by simp
      then show ?thesis using fn by (rule allocateResult_retry)
    qed
  qed
qed

lemma setPortAllocation_wf: "wfNodes nodes \<Longrightarrow> wfNodes (setPortAllocation q nodes v)"
  by (induction nodes) (auto simp add: wfNodes_def distinctKeys_def distinct_update)

lemma setPortAllocation_length [simp]: "length (setPortAllocation q nodes v) = length nodes"
  by (induction nodes) auto

lemma setPortAllocation_count:
  "takenCount (setPortAllocation q nodes False) r =
     (if r = q then takenCount nodes q - 1 else takenCount nodes r)"
  by (induction nodes) (auto simp add: takenCount_Cons portTaken_update)

lemma releasePorts_wf: "wfNodes nodes \<Longrightarrow> wfNodes (releasePorts ps minP maxP nodes)"
  by (induction ps arbitrary: nodes) (auto simp add: setPortAllocation_wf)

lemma releasePorts_length [simp]: "length (releasePorts ps minP maxP nodes) = length nodes"
  by (induction ps arbitrary: nodes) auto

lemma releasePorts_count:
  "takenCount (releasePorts ps minP maxP nodes) q =
     takenCount nodes q - length (filter (\<lambda>p. HostPort p = q \<and> minP \<le> q \<and> q \<le> maxP) ps)"
proof (induction ps arbitrary: nodes)
  case Nil
  show ?case by simp
next
  case (Cons p ps)
  show ?case
    by (simp add: Cons setPortAllocation_count not_less)
qed

lemma count_filter_map:
  "count (mset (filter W (map f xs))) q = (if W q then length (filter (\<lambda>x. f x = q) xs) else 0)"
  by (induction xs) auto

lemma releasesPortsOf_count:
  assumes "releasesPortsOf minP maxP gs g" and "minP \<le> q" and "q \<le> maxP"
  shows "length (filter (\<lambda>p. HostPort p = q \<and> minP \<le> q \<and> q \<le> maxP) (Ports (Spec gs))) = heldBy g q"
proof -
  have "length (filter (\<lambda>p. HostPort p = q \<and> minP \<le> q \<and> q \<le> maxP) (Ports (Spec gs))) =
      length (filter (\<lambda>p. HostPort p = q) (Ports (Spec gs)))"
    using assms(2,3) by simp
  also have "\<dots> = count (mset (windowHostPorts minP maxP (Ports (Spec gs)))) q"
    unfolding windowHostPorts_def count_filter_map using assms(2,3) by simp
  also have "\<dots> = count (mset (windowHostPorts minP maxP
      (filter (\<lambda>p. PortPolicyOf p = Dynamic) (Ports (Spec g))))) q"
    using assms(1) by (simp add: releasesPortsOf_def)
  also have "\<dots> = length (filter (\<lambda>p. HostPort p = q)
      (filter (\<lambda>p. PortPolicyOf p = Dynamic) (Ports (Spec g))))"
    unfolding windowHostPorts_def count_filter_map using assms(2,3) by simp
  also have "\<dots> = heldBy g q"
    by (simp add: heldBy_def conj_commute)
  finally show ?thesis .
qed

lemma releasesPortsOf_copy:
  assumes "UID (ObjectMetaOf gs) = UID (ObjectMetaOf g)" and "Ports (Spec gs) = Ports (Spec g)"
    and "staticOutside minP maxP g"
  shows "releasesPortsOf minP maxP gs g"
proof -
  have "windowHostPorts minP maxP ps =
      windowHostPorts minP maxP (filter (\<lambda>p. PortPolicyOf p = Dynamic) ps)"
    if "list_all (\<lambda>p. PortPolicyOf p = Dynamic \<or> HostPort p < minP \<or> maxP < HostPort p) ps" for ps
    using that by (induction ps) (auto simp add: windowHostPorts_def)
  with assms show ?thesis
    by (simp add: releasesPortsOf_def staticOutside_def)
qed

lemma heldBy_le_heldCount: "gs \<in> set live \<Longrightarrow> heldBy gs q \<le> heldCount live q"
  by (induction live) (auto simp add: heldCount_def)

lemma heldCount_remove1:
  "gs \<in> set live \<Longrightarrow> heldCount (remove1 gs live) q = heldCount live q - heldBy gs q"
proof (induction live)
  case Nil
  then show ?case by simp
next
  case (Cons g live)
  show ?case
  proof (cases "g = gs")
    case True
    then show ?thesis by (simp add: heldCount_def)
  next
    case False
    with Cons.prems have m: "gs \<in> set live" by simp
    from Cons.IH [OF m] heldBy_le_heldCount [OF m, of q] False show ?thesis
      by (simp add: heldCount_def)
  qed
qed

lemma heldCount_Cons: "heldCount (gs # live) q = heldBy gs q + heldCount live q"
  by (simp add: heldCount_def)

lemma distinct_map_remove1_uid:
  "distinct (map f xs) \<Longrightarrow> distinct (map f (remove1 x xs))"
proof (induction xs)
  case Nil
  then show ?case by simp
next
  case (Cons y ys)
  have "f ` set (remove1 x ys) \<subseteq> f ` set ys"
    using set_remove1_subset [of x ys] by blast
  with Cons show ?case by auto
qed

lemma reached_inv:
  "reached minP maxP pa live \<Longrightarrow> allocatorInv minP maxP pa live"
proof (induction rule: reached.induct)
  case fresh
  show ?case
    by (simp add: allocatorInv_def NewPortAllocator_def wfNodes_def heldCount_def)
next
  case (allocated pa live gs rangeOrders pa' gs')
  from allocated.IH have inv: "allocatorInv minP maxP pa live" .
  then have wf: "wfNodes (portAllocations pa)" by (simp add: allocatorInv_def)
  from allocate_result [of rangeOrders pa gs "Inr (pa', gs')"] allocated.hyps(3,4) wf
  have "allocateResult pa gs (Inr (pa', gs'))" by (simp add: Allocate_def)
  then have r: "wfNodes (portAllocations pa')" "minPort pa' = minPort pa" "maxPort pa' = maxPort pa"
    "gameServerRegistry pa' = (gameServerRegistry pa)(UID (ObjectMetaOf gs) \<mapsto> True)"
    "\<forall>q. takenCount (portAllocations pa') q = takenCount (portAllocations pa) q + heldBy gs' q"
    "ObjectMetaOf gs' = ObjectMetaOf gs"
    by (auto simp add: allocateResult_def)
  have "UID (ObjectMetaOf gs) \<notin> dom (gameServerRegistry pa)"
    using allocated.hyps(2) by (simp add: domIff)
  moreover have "dom (gameServerRegistry pa) = (\<lambda>gs. UID (ObjectMetaOf gs)) ` set live"
    using inv by (simp add: allocatorInv_def)
  ultimately have new: "UID (ObjectMetaOf gs) \<notin> (\<lambda>gs. UID (ObjectMetaOf gs)) ` set live"
    by simp
  show ?case
    unfolding allocatorInv_def
  proof (intro conjI allI impI)
    show "wfNodes (portAllocations pa')" by (rule r(1))
    show "minPort pa' = minP" "maxPort pa' = maxP"
      using r(2,3) inv by (simp_all add: allocatorInv_def)
    show "dom (gameServerRegistry pa') = (\<lambda>gs. UID (ObjectMetaOf gs)) ` set (gs' # live)"
      using inv by (simp add: r(4,6) allocatorInv_def)
    show "distinct (map (\<lambda>gs. UID (ObjectMetaOf gs)) (gs' # live))"
      using inv new by (simp add: r(6) allocatorInv_def)
    show "takenCount (portAllocations pa') q = heldCount (gs' # live) q"
      if "minP \<le> q \<and> q \<le> maxP" for q
      using inv that r(5) by (simp add: allocatorInv_def heldCount_Cons)
  qed
next
  case (deallocated pa live g gs)
  from deallocated.IH have inv: "allocatorInv minP maxP pa live" .
  have uid: "UID (ObjectMetaOf gs) = UID (ObjectMetaOf g)"
    using deallocated.hyps(3) by (simp add: releasesPortsOf_def)
  have "dom (gameServerRegistry pa) = (\<lambda>gs. UID (ObjectMetaOf gs)) ` set live"
    using inv by (simp add: allocatorInv_def)
  with deallocated.hyps(2) have "UID (ObjectMetaOf g) \<in> dom (gameServerRegistry pa)"
    by blast
  then have reg: "gameServerRegistry pa (UID (ObjectMetaOf gs)) \<noteq> None"
    by (simp add: domIff uid)
  have d: "DeAllocate pa gs = pa\<lparr>portAllocations :=
                releasePorts (Ports (Spec gs)) minP maxP (portAllocations pa),
              gameServerRegistry := (gameServerRegistry pa)(UID (ObjectMetaOf g) := None)\<rparr>"
  proof -
    have "minPort pa = minP" "maxPort pa = maxP" using inv by (simp_all add: allocatorInv_def)
    with reg show ?thesis by (auto simp add: DeAllocate_def uid)
  qed
  have dist: "distinct (map (\<lambda>gs. UID (ObjectMetaOf gs)) live)"
    using inv by (simp add: allocatorInv_def)
  have others: "(\<lambda>gs. UID (ObjectMetaOf gs)) ` set (remove1 g live) =
      (\<lambda>gs. UID (ObjectMetaOf gs)) ` set live - {UID (ObjectMetaOf g)}"
    using dist deallocated.hyps(2)
  proof (induction live)
    case Nil
    then show ?case by simp
  next
    case (Cons h live)
    show ?case
    proof (cases "h = g")
      case True
      with Cons.prems(1) show ?thesis by auto
    next
      case False
      with Cons.prems have "g \<in> set live" "distinct (map (\<lambda>gs. UID (ObjectMetaOf gs)) live)"
        "UID (ObjectMetaOf h) \<noteq> UID (ObjectMetaOf g)"
        by auto
      with Cons.IH False show ?thesis by auto
    qed
  qed
  show ?case
    unfolding allocatorInv_def
  proof (intro conjI allI impI)
    show "wfNodes (portAllocations (DeAllocate pa gs))"
      using inv by (simp add: d allocatorInv_def releasePorts_wf)
    show "minPort (DeAllocate pa gs) = minP" "maxPort (DeAllocate pa gs) = maxP"
      using inv by (simp_all add: d allocatorInv_def)
    show "dom (gameServerRegistry (DeAllocate pa gs)) =
        (\<lambda>gs. UID (ObjectMetaOf gs)) ` set (remove1 g live)"
      using inv by (simp add: d others allocatorInv_def)
    show "distinct (map (\<lambda>gs. UID (ObjectMetaOf gs)) (remove1 g live))"
      using dist by (rule distinct_map_remove1_uid)
    show "takenCount (portAllocations (DeAllocate pa gs)) q = heldCount (remove1 g live) q"
      if w: "minP \<le> q \<and> q \<le> maxP" for q
    proof -
      have "takenCount (portAllocations (DeAllocate pa gs)) q =
          takenCount (portAllocations pa) q - heldBy g q"
        using w releasesPortsOf_count [OF deallocated.hyps(3), of q]
        by (simp add: d releasePorts_count)
      also have "\<dots> = heldCount live q - heldBy g q"
        using inv w by (simp add: allocatorInv_def)
      also have "\<dots> = heldCount (remove1 g live) q"
        using deallocated.hyps(2) by (simp add: heldCount_remove1)
      finally show ?thesis .
    qed
  qed
next
  case (ignored pa live gs)
  then show ?case by (simp add: DeAllocate_def)
qed

lemma allocate_diverges:
  assumes "CountPorts gs Dynamic = 0"
    and "\<forall>k. allFree (rangeOrders k) 0 (portAllocations pa) \<noteq> []"
  shows "allocate rangeOrders pa gs = None"
proof (cases "allocate rangeOrders pa gs")
  case None
  then show ?thesis .
next
  case (Some r)
  have "\<not> (CountPorts gs Dynamic = 0 \<and>
      (\<forall>k. allFree (rangeOrders k) 0 (portAllocations pa) \<noteq> []))"
  proof (rule allocate.raw_induct
      [where P = "\<lambda>rangeOrders pa gs r.
         \<not> (CountPorts gs Dynamic = 0 \<and>
            (\<forall>k. allFree (rangeOrders k) 0 (portAllocations pa) \<noteq> []))",
       OF _ Some], goal_cases)
    case (1 f rangeOrders pa gs r)
    show ?case
    proof
      assume bad: "CountPorts gs Dynamic = 0 \<and>
        (\<forall>k. allFree (rangeOrders k) 0 (portAllocations pa) \<noteq> [])"
      then have "allFree (rangeOrders 0) 0 (portAllocations pa) \<noteq> []" by blast
      with bad have
        "length (findOpenPorts (rangeOrders 0) pa (CountPorts gs Dynamic)) \<noteq> CountPorts gs Dynamic"
        by (simp add: findOpenPorts_eq)
      with 1(2) obtain n where
        rec: "f (\<lambda>k. rangeOrders (Suc k))
          (pa\<lparr>portAllocations := portAllocations pa @ [n]\<rparr>) gs = Some r"
        by (auto split: option.splits)
      from 1(1) [OF rec] bad show False
        by (simp add: allFree_append)
    qed
  qed
  with assms show ?thesis by simp
qed

lemma allFree_length:
  assumes "rangesOverMap rangeOrder"
  shows "length (allFree rangeOrder i ns) = freeTotal ns"
proof (induction ns arbitrary: i)
  case Nil
  show ?case by (simp add: freeTotal_def)
next
  case (Cons n ns)
  have "length (freeOf i (rangeOrder i n)) = length (filter (\<lambda>e. \<not> snd e) n)"
    using rangesOverMap_free [OF assms, of i n] by (simp add: freeOf_def)
  with Cons [of "i + 1"] show ?case by (simp add: freeTotal_def)
qed

lemma freeTotal_append: "freeTotal (ns @ ms) = freeTotal ns + freeTotal ms"
  by (simp add: freeTotal_def)

lemma allocate_returns:
  assumes lo: "- (2 ^ 31) \<le> minPort pa" and le: "minPort pa \<le> maxPort pa"
    and hi: "maxPort pa < 2 ^ 31 - 1"
    and am: "0 < CountPorts gs Dynamic"
    and ro: "rangesEachTime rangeOrders"
  shows "\<exists>r. allocate rangeOrders pa gs = Some r"
  using lo le hi ro
proof (induction "CountPorts gs Dynamic - freeTotal (portAllocations pa)"
    arbitrary: pa rangeOrders rule: less_induct)
  case less
  let ?A = "CountPorts gs Dynamic"
  let ?F = "allFree (rangeOrders 0) 0 (portAllocations pa)"
  have ro0: "rangesOverMap (rangeOrders 0)" using less.prems(4) by (rule rangesEachTime_nth)
  have lf: "length ?F = freeTotal (portAllocations pa)" using ro0 by (rule allFree_length)
  show ?case
  proof (cases "?A \<le> length ?F")
    case True
    then have "length (findOpenPorts (rangeOrders 0) pa ?A) = ?A"
      using am by (simp add: findOpenPorts_eq)
    then show ?thesis by (subst allocate.simps) simp
  next
    case False
    then have ne: "length (findOpenPorts (rangeOrders 0) pa ?A) \<noteq> ?A"
      by (simp add: findOpenPorts_eq)
    let ?n = "map (\<lambda>k. (k, False)) [minPort pa..maxPort pa]"
    let ?pa' = "pa\<lparr>portAllocations := portAllocations pa @ [?n]\<rparr>"
    have n: "newPortAllocation pa = Some ?n"
      using less.prems by (intro newPortAllocation_returns) simp_all
    have "freeTotal [?n] = length ?n" by (simp add: freeTotal_def comp_def)
    moreover have "0 < length ?n" using less.prems(2) by simp
    ultimately have "freeTotal (portAllocations pa) < freeTotal (portAllocations ?pa')"
      by (simp add: freeTotal_append)
    with False lf have dec: "?A - freeTotal (portAllocations ?pa') < ?A - freeTotal (portAllocations pa)"
      by simp
    have "\<exists>r. allocate (\<lambda>k. rangeOrders (Suc k)) ?pa' gs = Some r"
      using less.hyps [OF dec] less.prems rangesEachTime_Suc [OF less.prems(4)] by simp
    moreover have "allocate rangeOrders pa gs = allocate (\<lambda>k. rangeOrders (Suc k)) ?pa' gs"
      using ne n by (subst allocate.simps) simp
    ultimately show ?thesis by simp
  qed
qed

lemma allocate_grows:
  assumes "allocate rangeOrders pa gs = Some r"
  shows "\<exists>ns. list_all (\<lambda>n. newPortAllocation pa = Some n) ns \<and>
    length (findOpenPorts (rangeOrders (length ns))
      (pa\<lparr>portAllocations := portAllocations pa @ ns\<rparr>) (CountPorts gs Dynamic)) =
      CountPorts gs Dynamic \<and>
    r = assignAllocations (pa\<lparr>portAllocations := portAllocations pa @ ns\<rparr>) gs
      (findOpenPorts (rangeOrders (length ns))
        (pa\<lparr>portAllocations := portAllocations pa @ ns\<rparr>) (CountPorts gs Dynamic))"
proof (rule allocate.raw_induct
    [where P = "\<lambda>rangeOrders pa gs r. \<exists>ns. list_all (\<lambda>n. newPortAllocation pa = Some n) ns \<and>
      length (findOpenPorts (rangeOrders (length ns))
        (pa\<lparr>portAllocations := portAllocations pa @ ns\<rparr>) (CountPorts gs Dynamic)) =
        CountPorts gs Dynamic \<and>
      r = assignAllocations (pa\<lparr>portAllocations := portAllocations pa @ ns\<rparr>) gs
        (findOpenPorts (rangeOrders (length ns))
          (pa\<lparr>portAllocations := portAllocations pa @ ns\<rparr>) (CountPorts gs Dynamic))",
     OF _ assms], goal_cases)
  case (1 f rangeOrders pa gs r)
  show ?case
  proof (cases "length (findOpenPorts (rangeOrders 0) pa (CountPorts gs Dynamic)) =
      CountPorts gs Dynamic")
    case True
    with 1(2) have
      "r = assignAllocations pa gs (findOpenPorts (rangeOrders 0) pa (CountPorts gs Dynamic))"
      by simp
    with True show ?thesis by (intro exI [of _ "[]"]) simp
  next
    case False
    with 1(2) obtain n where n: "newPortAllocation pa = Some n"
      and rec: "f (\<lambda>k. rangeOrders (Suc k))
        (pa\<lparr>portAllocations := portAllocations pa @ [n]\<rparr>) gs = Some r"
      by (auto split: option.splits)
    let ?pa1 = "pa\<lparr>portAllocations := portAllocations pa @ [n]\<rparr>"
    have same: "newPortAllocation ?pa1 = newPortAllocation pa"
      by (simp add: newPortAllocation_def)
    from 1(1) [OF rec] obtain ns where
      a: "list_all (\<lambda>m. newPortAllocation ?pa1 = Some m) ns"
      and b: "length (findOpenPorts (rangeOrders (Suc (length ns)))
        (?pa1\<lparr>portAllocations := portAllocations ?pa1 @ ns\<rparr>) (CountPorts gs Dynamic)) =
        CountPorts gs Dynamic"
      and c: "r = assignAllocations (?pa1\<lparr>portAllocations := portAllocations ?pa1 @ ns\<rparr>) gs
        (findOpenPorts (rangeOrders (Suc (length ns)))
          (?pa1\<lparr>portAllocations := portAllocations ?pa1 @ ns\<rparr>) (CountPorts gs Dynamic))"
      by blast
    show ?thesis
      using a b c n by (intro exI [of _ "n # ns"]) (simp add: same)
  qed
qed

lemma allocate_window:
  assumes al: "allocate rangeOrders pa gs = Some (Inr (pa', gs'))"
    and ros: "rangesEachTime rangeOrders" and wf: "wfNodes (portAllocations pa)"
    and lo: "- (2 ^ 31) \<le> minPort pa" and hi: "maxPort pa < 2 ^ 31 - 1"
    and fw: "freeKeysInWindow pa"
  shows "list_all (\<lambda>p. PortPolicyOf p = Dynamic \<longrightarrow> minPort pa \<le> HostPort p \<and> HostPort p \<le> maxPort pa)
    (Ports (Spec gs'))"
proof -
  let ?A = "CountPorts gs Dynamic"
  let ?fresh = "map (\<lambda>k. (k, False)) [minPort pa..maxPort pa]"
  from allocate_grows [OF al] obtain ns where
    ns: "list_all (\<lambda>n. newPortAllocation pa = Some n) ns"
    and len: "length (findOpenPorts (rangeOrders (length ns))
      (pa\<lparr>portAllocations := portAllocations pa @ ns\<rparr>) ?A) = ?A"
    and r: "Inr (pa', gs') = assignAllocations (pa\<lparr>portAllocations := portAllocations pa @ ns\<rparr>) gs
      (findOpenPorts (rangeOrders (length ns)) (pa\<lparr>portAllocations := portAllocations pa @ ns\<rparr>) ?A)"
    by blast
  define rangeOrder where "rangeOrder = rangeOrders (length ns)"
  have ro: "rangesOverMap rangeOrder"
    unfolding rangeOrder_def using ros by (rule rangesEachTime_nth)
  note len = len [folded rangeOrder_def] and r = r [folded rangeOrder_def]
  let ?pg = "pa\<lparr>portAllocations := portAllocations pa @ ns\<rparr>"
  let ?al = "findOpenPorts rangeOrder ?pg ?A"
  have nsf: "\<forall>n \<in> set ns. n = ?fresh"
    using ns newPortAllocation_returns [OF lo hi] by (auto simp add: list_all_iff)
  have wfg: "wfNodes (portAllocations ?pg)"
    using wf nsf by (auto simp add: wfNodes_def list_all_iff distinctKeys_def comp_def)
  have keys: "minPort pa \<le> snd a \<and> snd a \<le> maxPort pa" if a: "a \<in> set ?al" for a
  proof -
    from a findOpenPorts_subset [of rangeOrder ?pg ?A]
    have "a \<in> set (allFree rangeOrder 0 (portAllocations ?pg))" by blast
    from allFree_set [OF ro this] have i: "fst a < length (portAllocations pa @ ns)"
      and m: "(snd a, False) \<in> set ((portAllocations pa @ ns) ! fst a)"
      by simp_all
    show ?thesis
    proof (cases "fst a < length (portAllocations pa)")
      case True
      then have "(portAllocations pa @ ns) ! fst a \<in> set (portAllocations pa)"
        by (simp add: nth_append)
      with fw have "\<forall>e \<in> set ((portAllocations pa @ ns) ! fst a).
          snd e \<or> (minPort pa \<le> fst e \<and> fst e \<le> maxPort pa)"
        by (simp add: freeKeysInWindow_def list_all_iff)
      from this [rule_format, OF m] show ?thesis by simp
    next
      case False
      with i have "(portAllocations pa @ ns) ! fst a \<in> set ns"
        by (simp add: nth_append)
      with nsf have "(portAllocations pa @ ns) ! fst a = ?fresh" by blast
      with m have "(snd a, False) \<in> set ?fresh" by simp
      then show ?thesis by auto
    qed
  qed
  have fr: "list_all (freeAt (portAllocations ?pg)) ?al"
    using findOpenPorts_subset [of rangeOrder ?pg ?A] allFree_freeAt [OF ro wfg]
    by (auto simp add: list_all_iff)
  have d: "distinct ?al" using ro wfg by (rule findOpenPorts_distinct)
  have l: "length (filter (\<lambda>p. PortPolicyOf p = Dynamic) (Ports (Spec gs))) \<le> length ?al"
    using len by (simp add: CountPorts_eq)
  from assignPorts_ok [OF wfg fr d l] obtain ps' nodes' where
    ap: "assignPorts (Ports (Spec gs)) ?al (portAllocations ?pg) = Inr (ps', nodes')"
    and pp: "map PortPolicyOf ps' = map PortPolicyOf (Ports (Spec gs))"
    and h: "list_all2 (\<lambda>p p'. if PortPolicyOf p = Dynamic then HostPort p' \<in> snd ` set ?al
                       else p' = p) (Ports (Spec gs)) ps'"
    by blast
  from r ap have gs': "Ports (Spec gs') = ps'"
    by (simp add: assignAllocations_def)
  have "minPort pa \<le> HostPort (ps' ! k) \<and> HostPort (ps' ! k) \<le> maxPort pa"
    if k: "k < length ps'" and dyn: "PortPolicyOf (ps' ! k) = Dynamic" for k
  proof -
    from pp have eqlen: "length ps' = length (Ports (Spec gs))" by (metis length_map)
    from pp k eqlen have "PortPolicyOf (Ports (Spec gs) ! k) = PortPolicyOf (ps' ! k)"
      by (metis nth_map)
    with dyn h k eqlen have "HostPort (ps' ! k) \<in> snd ` set ?al"
      by (auto simp add: list_all2_conv_all_nth)
    with keys show ?thesis by auto
  qed
  then show ?thesis
    by (simp add: gs' list_all_length)
qed

lemma takePort_freeKeys:
  assumes "list_all (list_all (\<lambda>e. snd e \<or> (lo \<le> fst e \<and> fst e \<le> hi))) nodes"
  shows "list_all (list_all (\<lambda>e. snd e \<or> (lo \<le> fst e \<and> fst e \<le> hi))) (takePort a nodes)"
proof (cases "fst a < length nodes")
  case True
  have "list_all (\<lambda>e. snd e \<or> (lo \<le> fst e \<and> fst e \<le> hi)) (AList.update k True np)"
    if "list_all (\<lambda>e. snd e \<or> (lo \<le> fst e \<and> fst e \<le> hi)) np" for k np
    using that by (induction np) auto
  with assms True show ?thesis
    by (auto simp add: takePort_def list_all_length nth_list_update)
next
  case False
  with assms show ?thesis by (simp add: takePort_def list_update_beyond)
qed

lemma assignPorts_freeKeys:
  "assignPorts ps allocations nodes = Inr (ps', nodes') \<Longrightarrow>
   list_all (list_all (\<lambda>e. snd e \<or> (lo \<le> fst e \<and> fst e \<le> hi))) nodes \<Longrightarrow>
   list_all (list_all (\<lambda>e. snd e \<or> (lo \<le> fst e \<and> fst e \<le> hi))) nodes'"
proof (induction ps arbitrary: allocations nodes ps')
  case Nil
  then show ?case by simp
next
  case (Cons p ps)
  show ?case
  proof (cases "PortPolicyOf p = Dynamic")
    case True
    with Cons.prems(1) obtain a rest ps1 where "allocations = a # rest"
      and "assignPorts ps rest (takePort a nodes) = Inr (ps1, nodes')"
      by (auto split: list.splits sum.splits)
    with Cons.IH [of rest "takePort a nodes" ps1] takePort_freeKeys [OF Cons.prems(2), of a]
    show ?thesis by simp
  next
    case False
    with Cons.prems(1) obtain ps1 where "assignPorts ps allocations nodes = Inr (ps1, nodes')"
      by (auto split: sum.splits)
    with Cons.IH [of allocations nodes ps1] Cons.prems(2) show ?thesis by simp
  qed
qed

lemma allocate_keeps_window:
  assumes al: "allocate rangeOrders pa gs = Some (Inr (pa', gs'))"
    and lo: "- (2 ^ 31) \<le> minPort pa" and hi: "maxPort pa < 2 ^ 31 - 1"
    and fw: "freeKeysInWindow pa"
  shows "freeKeysInWindow pa'"
proof -
  let ?A = "CountPorts gs Dynamic"
  let ?fresh = "map (\<lambda>k. (k, False)) [minPort pa..maxPort pa]"
  from allocate_grows [OF al] obtain ns where
    ns: "list_all (\<lambda>n. newPortAllocation pa = Some n) ns"
    and r: "Inr (pa', gs') = assignAllocations (pa\<lparr>portAllocations := portAllocations pa @ ns\<rparr>) gs
      (findOpenPorts (rangeOrders (length ns))
        (pa\<lparr>portAllocations := portAllocations pa @ ns\<rparr>) ?A)"
    by blast
  have nsf: "\<forall>n \<in> set ns. n = ?fresh"
    using ns newPortAllocation_returns [OF lo hi] by (auto simp add: list_all_iff)
  have "list_all (\<lambda>e. snd e \<or> (minPort pa \<le> fst e \<and> fst e \<le> maxPort pa)) n"
    if "n \<in> set ns" for n
  proof -
    from that nsf have "n = ?fresh" by blast
    then show ?thesis by (simp add: list_all_iff)
  qed
  then have "list_all (list_all (\<lambda>e. snd e \<or> (minPort pa \<le> fst e \<and> fst e \<le> maxPort pa))) ns"
    by (simp add: list_all_iff [of _ ns])
  with fw have g: "list_all (list_all (\<lambda>e. snd e \<or> (minPort pa \<le> fst e \<and> fst e \<le> maxPort pa)))
      (portAllocations pa @ ns)"
    by (simp add: freeKeysInWindow_def)
  from r obtain ps' nodes' where
    ap: "assignPorts (Ports (Spec gs))
          (findOpenPorts (rangeOrders (length ns))
            (pa\<lparr>portAllocations := portAllocations pa @ ns\<rparr>) ?A)
          (portAllocations pa @ ns) = Inr (ps', nodes')"
    and pa': "portAllocations pa' = nodes'" "minPort pa' = minPort pa" "maxPort pa' = maxPort pa"
    by (auto simp add: assignAllocations_def split: sum.splits)
  from assignPorts_freeKeys [OF ap g] show ?thesis
    by (simp add: freeKeysInWindow_def pa')
qed

text \<open>
  For a GameServer with at least one dynamic port the claim C2 holds: from every allocator
  whose node maps have distinct keys and open ports inside the window, with
  \<open>minPort \<le> maxPort\<close> below the greatest \<open>int32\<close>, \<open>Allocate\<close> returns; every
  dynamic port has a host port in the window, every other port is as it was, the
  GameServer is registered, and the allocator is again of that kind. The witness starts
  from the allocator with no node map.
\<close>

theorem Allocate_returns_ports_in_window:
  assumes "rangesEachTime rangeOrders" and "wfNodes (portAllocations pa)" and "freeKeysInWindow pa"
    and "- (2 ^ 31) \<le> minPort pa" and "minPort pa \<le> maxPort pa" and "maxPort pa < 2 ^ 31 - 1"
    and "0 < CountPorts gs Dynamic"
  shows "\<exists>pa' gs'. Allocate rangeOrders pa gs = Some (Inr (pa', gs')) \<and>
    map PortPolicyOf (Ports (Spec gs')) = map PortPolicyOf (Ports (Spec gs)) \<and>
    list_all (\<lambda>p. PortPolicyOf p = Dynamic \<longrightarrow> minPort pa \<le> HostPort p \<and> HostPort p \<le> maxPort pa)
      (Ports (Spec gs')) \<and>
    list_all2 (\<lambda>p p'. PortPolicyOf p = Dynamic \<or> p' = p) (Ports (Spec gs)) (Ports (Spec gs')) \<and>
    gameServerRegistry pa' (UID (ObjectMetaOf gs)) = Some True \<and>
    minPort pa' = minPort pa \<and> maxPort pa' = maxPort pa \<and>
    wfNodes (portAllocations pa') \<and> freeKeysInWindow pa'"
proof -
  from allocate_returns [OF assms(4,5,6,7,1)] obtain r where r: "allocate rangeOrders pa gs = Some r"
    by blast
  from allocate_result [OF r] assms(1,2) have res: "allocateResult pa gs r" by simp
  then obtain pa' gs' where r': "r = Inr (pa', gs')" by (auto simp add: allocateResult_def)
  have al: "allocate rangeOrders pa gs = Some (Inr (pa', gs'))" using r r' by simp
  from res r' have
    "map PortPolicyOf (Ports (Spec gs')) = map PortPolicyOf (Ports (Spec gs))"
    "list_all2 (\<lambda>p p'. PortPolicyOf p = Dynamic \<or> p' = p) (Ports (Spec gs)) (Ports (Spec gs'))"
    "gameServerRegistry pa' (UID (ObjectMetaOf gs)) = Some True"
    "minPort pa' = minPort pa" "maxPort pa' = maxPort pa" "wfNodes (portAllocations pa')"
    by (auto simp add: allocateResult_def)
  moreover note allocate_window [OF al assms(1,2,4,6,3)] allocate_keeps_window [OF al assms(4,6,3)]
  ultimately show ?thesis using al by (simp add: Allocate_def)
qed

theorem Allocate_returns_ports_in_window_witness:
  "rangesEachTime (\<lambda>k i. rev) \<and> wfNodes (portAllocations (NewPortAllocator 7000 7002)) \<and>
   freeKeysInWindow (NewPortAllocator 7000 7002) \<and>
   - (2 ^ 31) \<le> minPort (NewPortAllocator 7000 7002) \<and>
   minPort (NewPortAllocator 7000 7002) \<le> maxPort (NewPortAllocator 7000 7002) \<and>
   maxPort (NewPortAllocator 7000 7002) < 2 ^ 31 - 1 \<and>
   0 < CountPorts (gsWithPorts ''a'' [(Dynamic, 0), (Static, 9999), (Dynamic, 0)]) Dynamic \<and>
   Allocate (\<lambda>k i. rev) (NewPortAllocator 7000 7002)
       (gsWithPorts ''a'' [(Dynamic, 0), (Static, 9999), (Dynamic, 0)]) =
     Some (Inr (\<lparr>portAllocations = [[(7000, False), (7001, True), (7002, True)]],
                 gameServerRegistry = [''a'' \<mapsto> True], minPort = 7000, maxPort = 7002\<rparr>,
                gsWithPorts ''a'' [(Dynamic, 7002), (Static, 9999), (Dynamic, 7001)]))"
proof -
  have h1: "rangesEachTime (\<lambda>k i. rev)" by (simp add: rangesEachTime_def rangesOverMap_def)
  have h2: "wfNodes (portAllocations (NewPortAllocator 7000 7002))"
    and h3: "freeKeysInWindow (NewPortAllocator 7000 7002)"
    and h4: "- (2 ^ 31) \<le> minPort (NewPortAllocator 7000 7002)"
    and h5: "minPort (NewPortAllocator 7000 7002) \<le> maxPort (NewPortAllocator 7000 7002)"
    and h6: "maxPort (NewPortAllocator 7000 7002) < 2 ^ 31 - 1"
    by (simp_all add: NewPortAllocator_def wfNodes_def freeKeysInWindow_def)
  have h7: "0 < CountPorts (gsWithPorts ''a'' [(Dynamic, 0), (Static, 9999), (Dynamic, 0)]) Dynamic"
    by (simp add: CountPorts_def gsWithPorts_def emptyGameServer_def Dynamic_def Static_def)
  have e: "Allocate (\<lambda>k i. rev) (NewPortAllocator 7000 7002)
       (gsWithPorts ''a'' [(Dynamic, 0), (Static, 9999), (Dynamic, 0)]) =
     Some (Inr (\<lparr>portAllocations = [[(7000, False), (7001, True), (7002, True)]],
                 gameServerRegistry = [''a'' \<mapsto> True], minPort = 7000, maxPort = 7002\<rparr>,
                gsWithPorts ''a'' [(Dynamic, 7002), (Static, 9999), (Dynamic, 7001)]))"
    by (simp add: allocator_eval)
  from Allocate_returns_ports_in_window [OF h1 h2 h3 h4 h5 h6 h7]
  have "\<exists>pa' gs'. Allocate (\<lambda>k i. rev) (NewPortAllocator 7000 7002)
       (gsWithPorts ''a'' [(Dynamic, 0), (Static, 9999), (Dynamic, 0)]) = Some (Inr (pa', gs'))"
    by blast
  with h1 h2 h3 h4 h5 h6 h7 e show ?thesis by blast
qed

text \<open>
  Claim C2 (the code departs from it). For a GameServer with no dynamic port
  \<open>findOpenPorts\<close> is asked for 0 ports, never meets \<open>len(ports) == amount\<close> after an
  append and returns every open port; so whenever a node map has an open port,
  \<open>allocate\<close> appends a node map and tries again, for ever. Here the allocator is the
  one left by a first allocation from the window 7000 to 7001, and the GameServer has one
  static port.
\<close>

theorem Allocate_without_dynamic_port_does_not_return:
  "Allocate (\<lambda>k i np. np) (NewPortAllocator 7000 7001) (gsWithPorts ''a'' [(Dynamic, 0)]) =
     Some (Inr (\<lparr>portAllocations = [[(7000, True), (7001, False)]],
                 gameServerRegistry = [''a'' \<mapsto> True], minPort = 7000, maxPort = 7001\<rparr>,
                gsWithPorts ''a'' [(Dynamic, 7000)])) \<and>
   CountPorts (gsWithPorts ''b'' [(Static, 8000)]) Dynamic = 0 \<and>
   Allocate (\<lambda>k i np. np)
     \<lparr>portAllocations = [[(7000, True), (7001, False)]],
      gameServerRegistry = [''a'' \<mapsto> True], minPort = 7000, maxPort = 7001\<rparr>
     (gsWithPorts ''b'' [(Static, 8000)]) = None"
proof (intro conjI)
  show "Allocate (\<lambda>k i np. np) (NewPortAllocator 7000 7001) (gsWithPorts ''a'' [(Dynamic, 0)]) =
     Some (Inr (\<lparr>portAllocations = [[(7000, True), (7001, False)]],
                 gameServerRegistry = [''a'' \<mapsto> True], minPort = 7000, maxPort = 7001\<rparr>,
                gsWithPorts ''a'' [(Dynamic, 7000)]))"
    by (simp add: allocator_eval)
  show c: "CountPorts (gsWithPorts ''b'' [(Static, 8000)]) Dynamic = 0"
    by (simp add: CountPorts_def gsWithPorts_def emptyGameServer_def Dynamic_def Static_def)
  have f: "\<forall>k. allFree ((\<lambda>k i np. np) k) 0 (portAllocations
     \<lparr>portAllocations = [[(7000, True), (7001, False)]],
      gameServerRegistry = [''a'' \<mapsto> True], minPort = 7000, maxPort = 7001\<rparr>) \<noteq> []"
    by simp
  from allocate_diverges [OF c f] show "Allocate (\<lambda>k i np. np)
     \<lparr>portAllocations = [[(7000, True), (7001, False)]],
      gameServerRegistry = [''a'' \<mapsto> True], minPort = 7000, maxPort = 7001\<rparr>
     (gsWithPorts ''b'' [(Static, 8000)]) = None"
    by (simp add: Allocate_def)
qed

text \<open>
  Claim C1, as amended. Start from a new allocator and let the callers keep to the
  discipline of \<open>reached\<close>: \<open>Allocate\<close> only for a GameServer that is not in the
  registry; \<open>DeAllocate\<close> only for a GameServer that is not in the registry, or for one
  that has the UID of a live GameServer and, inside the window, the host ports of that
  GameServer's dynamic ports, each as many times (any later copy of the GameServer that
  \<open>Allocate\<close> returned, when it has no static port in the window). Whatever order every
  \<open>range\<close> over a node map takes, for every port of the window the number of node maps
  in which it is marked taken then equals the number of dynamic ports of live GameServers
  whose host port it is, and the registry holds exactly the UIDs of the live GameServers.

  In the witness the first GameServer asks for three ports of the window 7000 to 7001 and
  the third run of \<open>findOpenPorts\<close> ranges over the two node maps in different orders; it
  is de-allocated through a later copy, in state Shutdown.
\<close>

theorem taken_in_as_many_nodes_as_held:
  assumes "reached minP maxP pa live"
    and "minP \<le> port" and "port \<le> maxP"
  shows "takenCount (portAllocations pa) port = heldCount live port \<and>
    dom (gameServerRegistry pa) = (\<lambda>gs. UID (ObjectMetaOf gs)) ` set live"
proof -
  from reached_inv [OF assms(1)] have inv: "allocatorInv minP maxP pa live" .
  then have "takenCount (portAllocations pa) port = heldCount live port"
    using assms(2,3) by (simp add: allocatorInv_def)
  moreover from inv have "dom (gameServerRegistry pa) = (\<lambda>gs. UID (ObjectMetaOf gs)) ` set live"
    by (simp add: allocatorInv_def)
  ultimately show ?thesis by simp
qed

theorem taken_in_as_many_nodes_as_held_witness:
  "reached 7000 7001
     (DeAllocate
        \<lparr>portAllocations = [[(7000, True), (7001, True)], [(7000, True), (7001, True)]],
         gameServerRegistry = [''a'' \<mapsto> True, ''b'' \<mapsto> True], minPort = 7000, maxPort = 7001\<rparr>
        ((gsWithPorts ''a'' [(Dynamic, 7000), (Dynamic, 7001), (Dynamic, 7001)])
           \<lparr>Status := \<lparr>State = GameServerStateShutdown, StatusPorts = [],
                        Address = ''10.0.0.1'', NodeName = ''node1''\<rparr>\<rparr>))
     (remove1 (gsWithPorts ''a'' [(Dynamic, 7000), (Dynamic, 7001), (Dynamic, 7001)])
        [gsWithPorts ''b'' [(Dynamic, 7000)],
         gsWithPorts ''a'' [(Dynamic, 7000), (Dynamic, 7001), (Dynamic, 7001)]]) \<and>
   (7000::int) \<le> 7000 \<and> (7000::int) \<le> 7001 \<and>
   Allocate (\<lambda>k i np. if i = 0 then np else rev np) (NewPortAllocator 7000 7001)
       (gsWithPorts ''a'' [(Dynamic, 0), (Dynamic, 0), (Dynamic, 0)]) =
     Some (Inr (\<lparr>portAllocations = [[(7000, True), (7001, True)], [(7000, False), (7001, True)]],
                 gameServerRegistry = [''a'' \<mapsto> True], minPort = 7000, maxPort = 7001\<rparr>,
                gsWithPorts ''a'' [(Dynamic, 7000), (Dynamic, 7001), (Dynamic, 7001)])) \<and>
   takenCount (portAllocations (DeAllocate
        \<lparr>portAllocations = [[(7000, True), (7001, True)], [(7000, True), (7001, True)]],
         gameServerRegistry = [''a'' \<mapsto> True, ''b'' \<mapsto> True], minPort = 7000, maxPort = 7001\<rparr>
        ((gsWithPorts ''a'' [(Dynamic, 7000), (Dynamic, 7001), (Dynamic, 7001)])
           \<lparr>Status := \<lparr>State = GameServerStateShutdown, StatusPorts = [],
                        Address = ''10.0.0.1'', NodeName = ''node1''\<rparr>\<rparr>))) 7000 = 1 \<and>
   heldCount (remove1 (gsWithPorts ''a'' [(Dynamic, 7000), (Dynamic, 7001), (Dynamic, 7001)])
        [gsWithPorts ''b'' [(Dynamic, 7000)],
         gsWithPorts ''a'' [(Dynamic, 7000), (Dynamic, 7001), (Dynamic, 7001)]]) 7000 = 1"
proof -
  let ?pa1 = "\<lparr>portAllocations = [[(7000, True), (7001, True)], [(7000, False), (7001, True)]],
         gameServerRegistry = [''a'' \<mapsto> True], minPort = 7000, maxPort = 7001\<rparr>"
  let ?pa2 = "\<lparr>portAllocations = [[(7000, True), (7001, True)], [(7000, True), (7001, True)]],
         gameServerRegistry = [''a'' \<mapsto> True, ''b'' \<mapsto> True], minPort = 7000, maxPort = 7001\<rparr>"
  let ?a = "gsWithPorts ''a'' [(Dynamic, 7000), (Dynamic, 7001), (Dynamic, 7001)]"
  let ?later = "?a\<lparr>Status := \<lparr>State = GameServerStateShutdown, StatusPorts = [],
                        Address = ''10.0.0.1'', NodeName = ''node1''\<rparr>\<rparr>"
  let ?b = "gsWithPorts ''b'' [(Dynamic, 7000)]"
  let ?ord = "\<lambda>(k::nat) (i::nat) (np::portAllocation). if i = 0 then np else rev np"
  let ?same = "\<lambda>(k::nat) (i::nat) (np::portAllocation). np"
  have o1: "rangesEachTime ?ord" by (simp add: rangesEachTime_def rangesOverMap_def)
  have o2: "rangesEachTime ?same" by (simp add: rangesEachTime_def rangesOverMap_def)
  have e1: "Allocate ?ord (NewPortAllocator 7000 7001)
      (gsWithPorts ''a'' [(Dynamic, 0), (Dynamic, 0), (Dynamic, 0)]) = Some (Inr (?pa1, ?a))"
    by (simp add: allocator_eval)
  have n1: "gameServerRegistry (NewPortAllocator 7000 7001)
      (UID (ObjectMetaOf (gsWithPorts ''a'' [(Dynamic, 0), (Dynamic, 0), (Dynamic, 0)]))) = None"
    by (simp add: NewPortAllocator_def)
  have r1: "reached 7000 7001 ?pa1 [?a]"
    by (rule reached.allocated [OF reached.fresh n1 o1 e1])
  have e2: "Allocate ?same ?pa1 (gsWithPorts ''b'' [(Dynamic, 0)]) = Some (Inr (?pa2, ?b))"
    by (simp add: allocator_eval)
  have n2: "gameServerRegistry ?pa1 (UID (ObjectMetaOf (gsWithPorts ''b'' [(Dynamic, 0)]))) = None"
    by (simp add: gsWithPorts_def emptyGameServer_def emptyObjectMeta_def)
  have r2: "reached 7000 7001 ?pa2 [?b, ?a]"
    by (rule reached.allocated [OF r1 n2 o2 e2])
  have m: "?a \<in> set [?b, ?a]" by simp
  have s: "releasesPortsOf 7000 7001 ?later ?a"
    by (simp add: releasesPortsOf_def windowHostPorts_def gsWithPorts_def emptyGameServer_def)
  have r3: "reached 7000 7001 (DeAllocate ?pa2 ?later) (remove1 ?a [?b, ?a])"
    by (rule reached.deallocated [OF r2 m s])
  have w: "(7000::int) \<le> 7000" "(7000::int) \<le> 7001" by simp_all
  have h: "heldCount (remove1 ?a [?b, ?a]) 7000 = 1"
    by (simp add: allocator_eval)
  from taken_in_as_many_nodes_as_held [OF r3 w] h
  have "takenCount (portAllocations (DeAllocate ?pa2 ?later)) 7000 = 1" by simp
  with r3 w e1 h show ?thesis by blast
qed

text \<open>
  Claim C1 as stated fails in four ways. With a window of one port a GameServer with two
  dynamic ports gets the same port from two node maps: two maps mark it, one GameServer
  holds it. A second \<open>Allocate\<close> of an allocated GameServer takes a new port and leaves
  the first one marked with no holder. \<open>DeAllocate\<close> of a GameServer with a static port
  in the window frees that port although another live GameServer holds it. \<open>DeAllocate\<close>
  of a GameServer through the copy that was handed to \<open>Allocate\<close>, which has not the host
  port yet, empties the registry and leaves the port marked.
\<close>

theorem taken_once_per_holder_counterexample:
  "(case Allocate (\<lambda>k i np. np) (NewPortAllocator 7000 7000)
          (gsWithPorts ''a'' [(Dynamic, 0), (Dynamic, 0)]) of
      Some (Inr (pa, gs)) \<Rightarrow> takenCount (portAllocations pa) 7000 = 2 \<and> holders [gs] 7000 = 1
    | _ \<Rightarrow> False) \<and>
   (case Allocate (\<lambda>k i np. np) (NewPortAllocator 7000 7001) (gsWithPorts ''a'' [(Dynamic, 0)]) of
      Some (Inr (pa1, gs1)) \<Rightarrow>
        (case Allocate (\<lambda>k i np. np) pa1 gs1 of
           Some (Inr (pa2, gs2)) \<Rightarrow>
             takenCount (portAllocations pa2) 7000 = 1 \<and> holders [gs2] 7000 = 0
         | _ \<Rightarrow> False)
    | _ \<Rightarrow> False) \<and>
   (case Allocate (\<lambda>k i np. np) (NewPortAllocator 7000 7001) (gsWithPorts ''a'' [(Dynamic, 0)]) of
      Some (Inr (pa1, gs1)) \<Rightarrow>
        (case Allocate (\<lambda>k i np. np) pa1 (gsWithPorts ''b'' [(Static, 7000), (Dynamic, 0)]) of
           Some (Inr (pa2, gs2)) \<Rightarrow>
             takenCount (portAllocations (DeAllocate pa2 gs2)) 7000 = 0 \<and> holders [gs1] 7000 = 1
         | _ \<Rightarrow> False)
    | _ \<Rightarrow> False) \<and>
   (case Allocate (\<lambda>k i np. np) (NewPortAllocator 7000 7001) (gsWithPorts ''a'' [(Dynamic, 0)]) of
      Some (Inr (pa1, gs1)) \<Rightarrow>
        takenCount (portAllocations (DeAllocate pa1 (gsWithPorts ''a'' [(Dynamic, 0)]))) 7000 = 1 \<and>
        dom (gameServerRegistry (DeAllocate pa1 (gsWithPorts ''a'' [(Dynamic, 0)]))) = {}
    | _ \<Rightarrow> False)"
  by (simp add: allocator_eval)

end
